theory Spec2Isabelle
  imports Complex_Main
begin

section \<open>Customer Support Helper API: a shallow embedding of main.py\<close>

text \<open>
  A Python string is a sequence of Unicode code points. The FAQ matcher and the ticket
  handlers only lower-case, measure, compare and store their strings; these are lists of
  8-bit characters, the code points below 256, which \<open>str.lower\<close> maps into themselves.
  The query of the action endpoint is matched against patterns whose classes and case folding
  single out code points beyond 255, so it is a list of code points, and so is what the
  recognizer builds from it.
\<close>

subsection \<open>Characters and strings\<close>

text \<open>
  \<open>str.lower\<close> below 256: the letters A to Z and the letters from U+00C0 to U+00DE (without
  the multiplication sign U+00D7) move up by 32.
\<close>

definition lower_latin1 :: "nat \<Rightarrow> nat" where
  "lower_latin1 c =
     (if (65 \<le> c \<and> c \<le> 90) \<or> (192 \<le> c \<and> c \<le> 222 \<and> c \<noteq> 215) then c + 32 else c)"

definition lower_char :: "char \<Rightarrow> char" where
  "lower_char c = char_of (lower_latin1 (of_char c))"

definition lower :: "string \<Rightarrow> string" where
  "lower s = map lower_char s"

text \<open>Code points, and the code points of a literal.\<close>

type_synonym codepoints = "nat list"

definition cps :: "string \<Rightarrow> codepoints" where
  "cps s = map of_char s"

text \<open>\<open>s.startswith(k)\<close> and the substring test \<open>k in s\<close>.\<close>

fun startswith :: "string \<Rightarrow> string \<Rightarrow> bool" where
  "startswith s [] = True"
| "startswith [] (k # ks) = False"
| "startswith (c # cs) (k # ks) = (c = k \<and> startswith cs ks)"

fun str_in :: "string \<Rightarrow> string \<Rightarrow> bool" where
  "str_in k [] = (k = [])"
| "str_in k (c # cs) = (startswith (c # cs) k \<or> str_in k cs)"

subsection \<open>The in-memory stores\<close>

record faq_item =
  "keywords" :: "string list"
  question :: string
  answer :: string

record ticket =
  ticket_id :: string
  user_email :: string
  issue_description :: string
  status :: string
  sentiment :: string
  timestamp :: string

text \<open>
  The two module-level dictionaries. \<open>faq_database\<close> keeps its insertion order, which the
  matcher's loop follows, so it is an association list; \<open>support_tickets_db\<close> is only read
  and written by key.
\<close>

record state =
  faq_database :: "(string \<times> faq_item) list"
  support_tickets_db :: "string \<rightharpoonup> ticket"

definition faq_database_init :: "(string \<times> faq_item) list" where
  "faq_database_init =
    [(''password_reset'',
        \<lparr>keywords = [''password'', ''reset'', ''forgot'', ''change account''],
         question = ''How do I reset my password?'',
         answer = ''You can reset your password by visiting the 'Account Settings' page and clicking on 'Forgot Password'. An email will be sent to you with instructions.''\<rparr>),
     (''shipping_info'',
        \<lparr>keywords = [''shipping'', ''delivery'', ''track'', ''package'', ''how long'', ''ship''],
         question = ''How long does shipping take?'',
         answer = ''Standard shipping usually takes 3-5 business days. Expedited shipping takes 1-2 business days. You will receive a tracking number once your order ships.''\<rparr>),
     (''return_policy'',
        \<lparr>keywords = [''return'', ''refund'', ''exchange'', ''policy''],
         question = ''What is your return policy?'',
         answer = ''You can return most new, unopened items within 30 days of delivery for a full refund. We'll also pay the return shipping costs if the return is a result of our error.''\<rparr>),
     (''payment_options'',
        \<lparr>keywords = [''payment'', ''pay'', ''credit card'', ''paypal'', ''options''],
         question = ''What payment options do you accept?'',
         answer = ''We accept Visa, MasterCard, American Express, and PayPal.''\<rparr>)]"

definition init_state :: state where
  "init_state = \<lparr>faq_database = faq_database_init, support_tickets_db = Map.empty\<rparr>"

subsection \<open>Request and response models\<close>

record FAQResponse =
  matched_question :: "string option"
  faq_answer :: string

record TicketInput =
  input_email :: string
  input_description :: string

record TicketResponse =
  resp_ticket_id :: string
  resp_user_email :: string
  resp_issue_description :: string
  resp_status :: string
  resp_sentiment :: string
  resp_timestamp :: string

record ActionResponse =
  intent :: codepoints
  entities :: "(codepoints \<times> codepoints) list"
  message :: codepoints

datatype http_error =
    HTTPException nat string
  | RequestValidationError

fun http_status :: "http_error \<Rightarrow> nat" where
  "http_status (HTTPException code detail) = code"
| "http_status RequestValidationError = 422"

subsection \<open>FAQ matcher\<close>

text \<open>The inner loop of \<open>find_faq_answer\<close>: one point for each keyword found in the query.\<close>

definition current_score :: "string list \<Rightarrow> string \<Rightarrow> nat" where
  "current_score kws user_query_lower =
     fold (\<lambda>keyword score. if str_in keyword user_query_lower then score + 1 else score) kws 0"

text \<open>The outer loop, on the pair \<open>(best_match_score, best_faq_id)\<close>.\<close>

definition best_match :: "(string \<times> faq_item) list \<Rightarrow> string \<Rightarrow> nat \<times> string option" where
  "best_match db user_query_lower =
     fold (\<lambda>(faq_id, item) (best_match_score, best_faq_id).
             if current_score (keywords item) user_query_lower > best_match_score
             then (current_score (keywords item) user_query_lower, Some faq_id)
             else (best_match_score, best_faq_id))
          db (0, None)"

text \<open>
  \<open>if best_faq_id and best_match_score > 0\<close>: the identifier is tested for truth, so
  \<open>None\<close> and the empty string both fail.
\<close>

definition find_faq_answer :: "(string \<times> faq_item) list \<Rightarrow> string \<Rightarrow> faq_item option" where
  "find_faq_answer db user_query =
     (case best_match db (lower user_query) of
        (best_match_score, None) \<Rightarrow> None
      | (best_match_score, Some best_faq_id) \<Rightarrow>
          if best_faq_id \<noteq> [] \<and> best_match_score > 0 then map_of db best_faq_id else None)"

definition faq_fallback :: string where
  "faq_fallback = ''I'm sorry, I couldn't find an answer related to your query. Please try rephrasing or check our full FAQ page.''"

definition get_faq :: "state \<Rightarrow> string \<Rightarrow> FAQResponse \<times> state" where
  "get_faq s query =
     (case find_faq_answer (faq_database s) query of
        Some item \<Rightarrow> (\<lparr>matched_question = Some (question item), faq_answer = answer item\<rparr>, s)
      | None \<Rightarrow> (\<lparr>matched_question = None, faq_answer = faq_fallback\<rparr>, s))"

subsection \<open>Sentiment classifier\<close>

text \<open>
  TextBlob's polarity is code outside the repository, so the scoring function is a parameter.
  A finite double is the real number it denotes; \<open>float_0_1\<close> is the double that the
  literal \<open>0.1\<close> denotes, and \<open>-0.1\<close> is its negation.
\<close>

definition float_0_1 :: real where
  "float_0_1 = 3602879701896397 / 36028797018963968"

definition get_sentiment :: "(string \<Rightarrow> real) \<Rightarrow> string \<Rightarrow> string" where
  "get_sentiment polarity text =
     (if polarity text > float_0_1 then ''positive''
      else if polarity text < - float_0_1 then ''negative''
      else ''neutral'')"

subsection \<open>Tickets\<close>

text \<open>
  The JSON body of a ticket submission: a field that is absent is \<open>None\<close>. \<open>TicketInput\<close>
  requires both fields and at least 10 characters of description; the framework answers a
  body that fails with status 422 and does not call the handler.
\<close>

record ticket_body =
  body_user_email :: "string option"
  body_issue_description :: "string option"

definition validate_TicketInput :: "ticket_body \<Rightarrow> http_error + TicketInput" where
  "validate_TicketInput body =
     (case body_user_email body of
        None \<Rightarrow> Inl RequestValidationError
      | Some email \<Rightarrow>
          (case body_issue_description body of
             None \<Rightarrow> Inl RequestValidationError
           | Some description \<Rightarrow>
               if length description < 10 then Inl RequestValidationError
               else Inr \<lparr>input_email = email, input_description = description\<rparr>))"

text \<open>
  What one call reads from outside: the string of \<open>uuid.uuid4()\<close> and the string of
  \<open>datetime.utcnow().isoformat()\<close>.
\<close>

record draws =
  uuid4 :: string
  utcnow_isoformat :: string

text \<open>\<open>TicketResponse(**d)\<close> for a stored dictionary \<open>d\<close>.\<close>

definition TicketResponse_of :: "ticket \<Rightarrow> TicketResponse" where
  "TicketResponse_of d =
     \<lparr>resp_ticket_id = ticket_id d, resp_user_email = user_email d,
      resp_issue_description = issue_description d, resp_status = status d,
      resp_sentiment = sentiment d, resp_timestamp = timestamp d\<rparr>"

definition submit_ticket ::
  "(string \<Rightarrow> real) \<Rightarrow> draws \<Rightarrow> state \<Rightarrow> TicketInput \<Rightarrow> TicketResponse \<times> state" where
  "submit_ticket polarity env s ticket_input =
     (let new_ticket =
            \<lparr>ticket_id = uuid4 env,
             user_email = input_email ticket_input,
             issue_description = input_description ticket_input,
             status = ''submitted'',
             sentiment = get_sentiment polarity (input_description ticket_input),
             timestamp = utcnow_isoformat env @ ''Z''\<rparr>
      in (TicketResponse_of new_ticket,
          s\<lparr>support_tickets_db := (support_tickets_db s)(uuid4 env \<mapsto> new_ticket)\<rparr>))"

definition get_ticket_status :: "state \<Rightarrow> string \<Rightarrow> (http_error + TicketResponse) \<times> state" where
  "get_ticket_status s tid =
     (case support_tickets_db s tid of
        None \<Rightarrow> (Inl (HTTPException 404 ''Ticket not found''), s)
      | Some d \<Rightarrow> (Inr (TicketResponse_of d), s))"

text \<open>\<open>POST /support/ticket\<close>: validation of the body, then the handler.\<close>

definition post_support_ticket ::
  "(string \<Rightarrow> real) \<Rightarrow> draws \<Rightarrow> state \<Rightarrow> ticket_body \<Rightarrow> (http_error + TicketResponse) \<times> state" where
  "post_support_ticket polarity env s body =
     (case validate_TicketInput body of
        Inl e \<Rightarrow> (Inl e, s)
      | Inr ticket_input \<Rightarrow>
          (case submit_ticket polarity env s ticket_input of (r, s') \<Rightarrow> (Inr r, s')))"

subsection \<open>Intent recognizer\<close>

text \<open>
  The character classes of \<open>re\<close> on a \<open>str\<close> pattern are those of Unicode. White space,
  \<open>\s\<close>, is \<open>str.isspace\<close>: the ASCII controls 9 to 13 and 28 to 31, the space, U+0085,
  U+00A0, U+1680, U+2000 to U+200A, U+2028, U+2029, U+202F, U+205F and U+3000.
\<close>

definition is_space :: "nat \<Rightarrow> bool" where
  "is_space c \<longleftrightarrow>
     (9 \<le> c \<and> c \<le> 13) \<or> (28 \<le> c \<and> c \<le> 32) \<or> c = 133 \<or> c = 160 \<or> c = 5760 \<or>
     (8192 \<le> c \<and> c \<le> 8202) \<or> c = 8232 \<or> c = 8233 \<or> c = 8239 \<or> c = 8287 \<or> c = 12288"

text \<open>
  Under \<open>re.IGNORECASE\<close> a character matches a letter of the pattern when the two have
  the same lower case or Unicode's case folding puts them together. Besides the ASCII
  letters in both cases, four characters go with an ASCII letter: U+0130 and U+0131 with i,
  U+017F with s, and U+212A with k. So the class \<open>[A-Z0-9]\<close> holds the ASCII letters and
  digits and these four.
\<close>

definition ascii_alnum :: "nat \<Rightarrow> bool" where
  "ascii_alnum c \<longleftrightarrow> (48 \<le> c \<and> c \<le> 57) \<or> (65 \<le> c \<and> c \<le> 90) \<or> (97 \<le> c \<and> c \<le> 122)"

definition order_id_char :: "nat \<Rightarrow> bool" where
  "order_id_char c \<longleftrightarrow> ascii_alnum c \<or> c = 304 \<or> c = 305 \<or> c = 383 \<or> c = 8490"

text \<open>
  \<open>literal_ignorecase l c\<close>: the character \<open>c\<close> matches the pattern character \<open>l\<close>, for
  \<open>l\<close> a lower-case ASCII letter or a character without case, as all literal characters
  of the track-order pattern are.
\<close>

definition literal_ignorecase :: "nat \<Rightarrow> nat \<Rightarrow> bool" where
  "literal_ignorecase l c \<longleftrightarrow>
     c = l \<or> (97 \<le> l \<and> l \<le> 122 \<and> c + 32 = l) \<or>
     (l = 105 \<and> (c = 304 \<or> c = 305)) \<or> (l = 107 \<and> c = 8490) \<or> (l = 115 \<and> c = 383)"

text \<open>
  \<open>str.upper\<close> on the characters of the class, to which alone the recognizer applies it:
  the lower-case ASCII letters move down by 32, U+0131 becomes I and U+017F becomes S; the
  digits, the upper-case letters, U+0130 and U+212A stay.
\<close>

definition upper_char :: "nat \<Rightarrow> nat" where
  "upper_char c =
     (if 97 \<le> c \<and> c \<le> 122 then c - 32 else if c = 305 then 73 else if c = 383 then 83 else c)"

definition upper :: "codepoints \<Rightarrow> codepoints" where
  "upper s = map upper_char s"

text \<open>
  \<open>str.lower\<close> and the alphanumeric characters (\<open>str.isalnum\<close>, which with the underscore
  makes \<open>\w\<close>) are tables of the interpreter. Below 256 they are listed here; what they say
  of text with a code point beyond is a parameter.
\<close>

record unicode_tables =
  table_lower :: "codepoints \<Rightarrow> codepoints"
  table_isalnum :: "nat \<Rightarrow> bool"

definition alnum_latin1 :: "nat \<Rightarrow> bool" where
  "alnum_latin1 c \<longleftrightarrow>
     ascii_alnum c \<or> c = 170 \<or> c = 178 \<or> c = 179 \<or> c = 181 \<or> c = 185 \<or> c = 186 \<or>
     (188 \<le> c \<and> c \<le> 190) \<or> (192 \<le> c \<and> c \<le> 214) \<or> (216 \<le> c \<and> c \<le> 246) \<or>
     (248 \<le> c \<and> c \<le> 255)"

definition str_lower :: "unicode_tables \<Rightarrow> codepoints \<Rightarrow> codepoints" where
  "str_lower tables s =
     (if list_all (\<lambda>c. c < 256) s then map lower_latin1 s else table_lower tables s)"

definition is_word_char :: "unicode_tables \<Rightarrow> nat \<Rightarrow> bool" where
  "is_word_char tables c =
     (if c < 256 then alnum_latin1 c \<or> c = 95 else table_isalnum tables c)"

text \<open>
  A literal of a pattern compiled with \<open>re.IGNORECASE\<close>, matched at the start of the
  input: the result is the rest of the input.
\<close>

fun match_literal_ci :: "codepoints \<Rightarrow> codepoints \<Rightarrow> codepoints option" where
  "match_literal_ci [] s = Some s"
| "match_literal_ci (l # ls) [] = None"
| "match_literal_ci (l # ls) (c # cs) =
     (if literal_ignorecase l c then match_literal_ci ls cs else None)"

text \<open>
  One alternative of \<open>(track|status of|where is)\<close> followed by the rest of the pattern,
  \<open> my order\s*([A-Z0-9]+)\<close>: both repetitions are greedy, and since no character is
  both white space and in the class, giving white space back cannot help. The result is
  group 2.
\<close>

definition match_track_tail :: "codepoints \<Rightarrow> codepoints \<Rightarrow> codepoints option" where
  "match_track_tail verb s =
     (case match_literal_ci (verb @ cps '' my order'') s of
        None \<Rightarrow> None
      | Some r \<Rightarrow>
          (let tok = takeWhile order_id_char (dropWhile is_space r)
           in if tok = [] then None else Some tok))"

fun match_alternatives :: "codepoints list \<Rightarrow> codepoints \<Rightarrow> codepoints option" where
  "match_alternatives [] s = None"
| "match_alternatives (verb # verbs) s =
     (case match_track_tail verb s of
        Some tok \<Rightarrow> Some tok
      | None \<Rightarrow> match_alternatives verbs s)"

definition track_order_match_at :: "codepoints \<Rightarrow> codepoints option" where
  "track_order_match_at s =
     match_alternatives [cps ''track'', cps ''status of'', cps ''where is''] s"

text \<open>\<open>re.search\<close> tries every start position from the left and keeps the first match.\<close>

fun track_order_search :: "codepoints \<Rightarrow> codepoints option" where
  "track_order_search [] = track_order_match_at []"
| "track_order_search (c # cs) =
     (case track_order_match_at (c # cs) of
        Some tok \<Rightarrow> Some tok
      | None \<Rightarrow> track_order_search cs)"

text \<open>
  The greeting pattern \<open>\b(hello|hi|hey|good morning|good afternoon)\b\<close> runs on the
  lower-cased query without flags. \<open>\b\<close> holds between two positions of which exactly
  one is a word character; the start and the end of the input count as no word character.
\<close>

definition greeting_words :: "codepoints list" where
  "greeting_words =
     [cps ''hello'', cps ''hi'', cps ''hey'', cps ''good morning'', cps ''good afternoon'']"

fun is_word_opt :: "unicode_tables \<Rightarrow> nat option \<Rightarrow> bool" where
  "is_word_opt tables None = False"
| "is_word_opt tables (Some c) = is_word_char tables c"

definition word_boundary :: "unicode_tables \<Rightarrow> nat option \<Rightarrow> nat option \<Rightarrow> bool" where
  "word_boundary tables before after = (is_word_opt tables before \<noteq> is_word_opt tables after)"

fun head_opt :: "codepoints \<Rightarrow> nat option" where
  "head_opt [] = None"
| "head_opt (c # cs) = Some c"

fun match_literal :: "codepoints \<Rightarrow> codepoints \<Rightarrow> codepoints option" where
  "match_literal [] s = Some s"
| "match_literal (l # ls) [] = None"
| "match_literal (l # ls) (c # cs) = (if c = l then match_literal ls cs else None)"

definition greeting_match_at :: "unicode_tables \<Rightarrow> nat option \<Rightarrow> codepoints \<Rightarrow> bool" where
  "greeting_match_at tables before s =
     (word_boundary tables before (head_opt s) \<and>
      list_ex (\<lambda>w. case match_literal w s of
                     None \<Rightarrow> False
                   | Some r \<Rightarrow> word_boundary tables (Some (last w)) (head_opt r))
              greeting_words)"

fun greeting_search :: "unicode_tables \<Rightarrow> nat option \<Rightarrow> codepoints \<Rightarrow> bool" where
  "greeting_search tables before [] = greeting_match_at tables before []"
| "greeting_search tables before (c # cs) =
     (greeting_match_at tables before (c # cs) \<or> greeting_search tables (Some c) cs)"

definition unknown_message :: codepoints where
  "unknown_message = cps ''I'm not sure how to help with that. Can you try rephrasing or ask about FAQs, order tracking, or submitting a ticket?''"

definition recognize_intent_and_extract_entities ::
  "unicode_tables \<Rightarrow> codepoints \<Rightarrow> ActionResponse" where
  "recognize_intent_and_extract_entities tables user_query =
     (let user_query_lower = str_lower tables user_query
      in case track_order_search user_query of
           Some tok \<Rightarrow>
             \<lparr>intent = cps ''track_order'',
              entities = [(cps ''order_id'', upper tok)],
              message = cps ''Fetching status for order '' @ upper tok @ cps ''...''\<rparr>
         | None \<Rightarrow>
             if greeting_search tables None user_query_lower
             then \<lparr>intent = cps ''greeting'', entities = [],
                   message = cps ''Hello! How can I help you today?''\<rparr>
             else \<lparr>intent = cps ''unknown'', entities = [], message = unknown_message\<rparr>)"

text \<open>An f-string prints a missing dictionary entry as \<open>None\<close>.\<close>

fun format_opt :: "codepoints option \<Rightarrow> codepoints" where
  "format_opt None = cps ''None''"
| "format_opt (Some v) = v"

definition perform_action :: "unicode_tables \<Rightarrow> state \<Rightarrow> codepoints \<Rightarrow> ActionResponse \<times> state" where
  "perform_action tables s query =
     (let result = recognize_intent_and_extract_entities tables query
      in if intent result = cps ''track_order''
         then (result\<lparr>message := cps ''Mocked: Order ''
                           @ format_opt (map_of (entities result) (cps ''order_id''))
                           @ cps '' is currently out for delivery. Estimated arrival: Tomorrow.''\<rparr>, s)
         else (result, s))"

subsection \<open>The service as a whole\<close>

text \<open>
  The request bodies of the other two POST endpoints: \<open>FAQQuery\<close> wants a query of at least
  3 characters, \<open>ActionQuery\<close> any query.
\<close>

definition post_support_faq :: "state \<Rightarrow> string option \<Rightarrow> (http_error + FAQResponse) \<times> state" where
  "post_support_faq s body =
     (case body of
        None \<Rightarrow> (Inl RequestValidationError, s)
      | Some query \<Rightarrow>
          if length query < 3 then (Inl RequestValidationError, s)
          else (case get_faq s query of (r, s') \<Rightarrow> (Inr r, s')))"

definition post_support_action ::
  "unicode_tables \<Rightarrow> state \<Rightarrow> codepoints option \<Rightarrow> (http_error + ActionResponse) \<times> state" where
  "post_support_action tables s body =
     (case body of
        None \<Rightarrow> (Inl RequestValidationError, s)
      | Some query \<Rightarrow> (case perform_action tables s query of (r, s') \<Rightarrow> (Inr r, s')))"

datatype request =
    PostFaq "string option"
  | PostTicket ticket_body
  | GetTicket string
  | PostAction "codepoints option"

datatype response =
    FaqResult "http_error + FAQResponse"
  | TicketResult "http_error + TicketResponse"
  | ActionResult "http_error + ActionResponse"

text \<open>
  What the service takes from its libraries: the scoring function of the sentiment library
  and the tables of the interpreter.
\<close>

record libraries =
  polarity_of :: "string \<Rightarrow> real"
  unicode :: unicode_tables

fun handle :: "libraries \<Rightarrow> draws \<Rightarrow> state \<Rightarrow> request \<Rightarrow> response \<times> state" where
  "handle lib env s (PostFaq body) =
     (case post_support_faq s body of (r, s') \<Rightarrow> (FaqResult r, s'))"
| "handle lib env s (PostTicket body) =
     (case post_support_ticket (polarity_of lib) env s body of (r, s') \<Rightarrow> (TicketResult r, s'))"
| "handle lib env s (GetTicket tid) =
     (case get_ticket_status s tid of (r, s') \<Rightarrow> (TicketResult r, s'))"
| "handle lib env s (PostAction body) =
     (case post_support_action (unicode lib) s body of (r, s') \<Rightarrow> (ActionResult r, s'))"

text \<open>A run of the service: the requests in the order they are served, each with its draws.\<close>

fun run :: "libraries \<Rightarrow> state \<Rightarrow> (draws \<times> request) list \<Rightarrow> state" where
  "run lib s [] = s"
| "run lib s ((env, req) # rest) = run lib (snd (handle lib env s req)) rest"

subsection \<open>The properties of the specification, stated on strings and stores\<close>

text \<open>A keyword occurs in a query when the query is some text, the keyword, and more text.\<close>

definition occurs_in :: "'a list \<Rightarrow> 'a list \<Rightarrow> bool" where
  "occurs_in k s \<longleftrightarrow> (\<exists>pre suf. s = pre @ k @ suf)"

definition keyword_count :: "faq_item \<Rightarrow> string \<Rightarrow> nat" where
  "keyword_count item user_query =
     length (filter (\<lambda>k. occurs_in k (lower user_query)) (keywords item))"

text \<open>
  \<open>order_token_at s tok\<close>: the text \<open>s\<close> begins with one of the three phrases, each
  character in either case or one of the characters that fold onto it, then white space or
  none, then the run \<open>tok\<close> of characters of the class, which is not empty and is followed
  by no further character of the class. \<open>track_order_occurs q\<close>: this holds at some
  position of \<open>q\<close>.
\<close>

definition track_phrases :: "codepoints list" where
  "track_phrases = [cps ''track my order'', cps ''status of my order'', cps ''where is my order'']"

definition order_token_at :: "codepoints \<Rightarrow> codepoints \<Rightarrow> bool" where
  "order_token_at s tok \<longleftrightarrow>
     (\<exists>ph ws rest. s = ph @ ws @ tok @ rest \<and>
        (\<exists>p\<in>set track_phrases. list_all2 literal_ignorecase p ph) \<and>
        (\<forall>c\<in>set ws. is_space c) \<and> tok \<noteq> [] \<and> (\<forall>c\<in>set tok. order_id_char c) \<and>
        (rest = [] \<or> \<not> order_id_char (hd rest)))"

definition track_order_occurs :: "codepoints \<Rightarrow> bool" where
  "track_order_occurs q \<longleftrightarrow> (\<exists>i tok. i \<le> length q \<and> order_token_at (drop i q) tok)"

text \<open>
  \<open>tail_spec lit s tok\<close>: as \<open>order_token_at\<close>, with the one phrase \<open>lit\<close>; this is
  what one alternative of the pattern followed by the rest of the pattern matches.
\<close>

definition tail_spec :: "codepoints \<Rightarrow> codepoints \<Rightarrow> codepoints \<Rightarrow> bool" where
  "tail_spec lit s tok \<longleftrightarrow>
     (\<exists>ph ws rest. s = ph @ ws @ tok @ rest \<and> list_all2 literal_ignorecase lit ph \<and>
        (\<forall>c\<in>set ws. is_space c) \<and> tok \<noteq> [] \<and> (\<forall>c\<in>set tok. order_id_char c) \<and>
        (rest = [] \<or> \<not> order_id_char (hd rest)))"

text \<open>
  \<open>ascii_token_at s tok\<close>: the same with the run \<open>tok\<close> of ASCII letters and digits,
  followed by no further ASCII letter or digit.
\<close>

definition ascii_token_at :: "codepoints \<Rightarrow> codepoints \<Rightarrow> bool" where
  "ascii_token_at s tok \<longleftrightarrow>
     (\<exists>ph ws rest. s = ph @ ws @ tok @ rest \<and>
        (\<exists>p\<in>set track_phrases. list_all2 literal_ignorecase p ph) \<and>
        (\<forall>c\<in>set ws. is_space c) \<and> tok \<noteq> [] \<and> (\<forall>c\<in>set tok. ascii_alnum c) \<and>
        (rest = [] \<or> \<not> ascii_alnum (hd rest)))"

text \<open>
  A greeting word occurs as a whole word: in the lower-cased query it stands between the
  start or a character that is no word character and the end or such a character.
\<close>

definition greeting_occurs :: "unicode_tables \<Rightarrow> codepoints \<Rightarrow> bool" where
  "greeting_occurs tables q \<longleftrightarrow>
     (\<exists>pre w suf. str_lower tables q = pre @ w @ suf \<and> w \<in> set greeting_words \<and>
        (pre = [] \<or> \<not> is_word_char tables (last pre)) \<and>
        (suf = [] \<or> \<not> is_word_char tables (hd suf)))"

text \<open>
  The invariants of the stores: the FAQ store is the one the module declares, each of its
  entries has a keyword, and each ticket is stored under its own identifier.
\<close>

definition store_invariant :: "state \<Rightarrow> bool" where
  "store_invariant s \<longleftrightarrow>
     faq_database s = faq_database_init \<and>
     (\<forall>entry\<in>set (faq_database s). keywords (snd entry) \<noteq> []) \<and>
     (\<forall>tid d. support_tickets_db s tid = Some d \<longrightarrow> ticket_id d = tid)"

text \<open>
  The identifiers that the accepted submissions of a run draw, in order. \<open>uuid.uuid4\<close> is
  library code, and the handler stores under the identifier it draws without looking whether
  the key exists; \<open>fresh_identifiers\<close> says of a run that these identifiers differ from each
  other and from the keys of the store at its start.
\<close>

fun accepted_submission :: "request \<Rightarrow> bool" where
  "accepted_submission (PostTicket body) = (case validate_TicketInput body of Inl e \<Rightarrow> False | Inr i \<Rightarrow> True)"
| "accepted_submission req = False"

definition submitted_ids :: "(draws \<times> request) list \<Rightarrow> string list" where
  "submitted_ids tr = map (\<lambda>step. uuid4 (fst step)) (filter (\<lambda>step. accepted_submission (snd step)) tr)"

definition fresh_identifiers :: "state \<Rightarrow> (draws \<times> request) list \<Rightarrow> bool" where
  "fresh_identifiers s tr \<longleftrightarrow>
     distinct (submitted_ids tr) \<and> set (submitted_ids tr) \<inter> dom (support_tickets_db s) = {}"

subsection \<open>Example requests\<close>

text \<open>
  A ticket body and a second one from another sender; three draws, of which the second has
  another identifier and the same clock reading as the first, and the third the identifier
  of the first and another clock reading; a scoring function that finds every text neutral
  and one with five values, among them 0.1 and -0.1; tables for text beyond U+00FF, which
  no example consults: its queries either stay below U+0100 or match the track-order
  pattern; and a run of all four operations.
\<close>

definition example_body :: ticket_body where
  "example_body = \<lparr>body_user_email = Some ''user@example.com'',
                   body_issue_description = Some ''My order is late and I'm very unhappy!''\<rparr>"

definition example_body_2 :: ticket_body where
  "example_body_2 = \<lparr>body_user_email = Some ''other@example.com'',
                     body_issue_description = Some ''The parcel never arrived.''\<rparr>"

definition example_draws :: draws where
  "example_draws = \<lparr>uuid4 = ''3f2b8c1e-5d4a-4e6f-9a7b-0c1d2e3f4a5b'',
                    utcnow_isoformat = ''2024-05-01T12:00:00.000123''\<rparr>"

definition example_draws_2 :: draws where
  "example_draws_2 = \<lparr>uuid4 = ''9c0e7a52-1b3d-4f68-8e2a-6d5c4b3a2f1e'',
                      utcnow_isoformat = ''2024-05-01T12:00:00.000123''\<rparr>"

definition example_draws_3 :: draws where
  "example_draws_3 = \<lparr>uuid4 = ''3f2b8c1e-5d4a-4e6f-9a7b-0c1d2e3f4a5b'',
                      utcnow_isoformat = ''2024-05-01T12:00:07.500000''\<rparr>"

definition flat_polarity :: "string \<Rightarrow> real" where
  "flat_polarity text = 0"

definition example_polarity :: "string \<Rightarrow> real" where
  "example_polarity text =
     (if text = ''This is excellent and wonderful'' then 1
      else if text = ''This is terrible and awful'' then - 1
      else if text = ''Good enough'' then 1 / 10
      else if text = ''Not that good'' then - (1 / 10)
      else 0)"

definition example_tables :: unicode_tables where
  "example_tables = \<lparr>table_lower = (\<lambda>s. s), table_isalnum = (\<lambda>c. False)\<rparr>"

definition example_libraries :: libraries where
  "example_libraries = \<lparr>polarity_of = flat_polarity, unicode = example_tables\<rparr>"

definition example_run :: "(draws \<times> request) list" where
  "example_run =
     [(example_draws, PostTicket example_body),
      (example_draws, GetTicket ''no-such-ticket''),
      (example_draws, PostFaq (Some ''I forgot my password'')),
      (example_draws, PostAction (Some (cps ''Track my order ORD12345''))),
      (example_draws_2, PostTicket example_body)]"

section \<open>Proofs\<close>

subsection \<open>FAQ matcher\<close>

lemma startswith_iff: "startswith s k \<longleftrightarrow> (\<exists>suf. s = k @ suf)"
  by (induction s k rule: startswith.induct) auto

lemma str_in_iff: "str_in k s \<longleftrightarrow> (\<exists>pre suf. s = pre @ k @ suf)"
proof (induction s)
  case Nil
  then show ?case by simp
next
  case (Cons c cs)
  show ?case
  proof
    assume "str_in k (c # cs)"
    then consider "startswith (c # cs) k" | "str_in k cs" by auto
    then show "\<exists>pre suf. c # cs = pre @ k @ suf"
    proof cases
      case 1
      then obtain suf where "c # cs = k @ suf" by (auto simp: startswith_iff)
      then have "c # cs = [] @ k @ suf" by simp
      then show ?thesis by blast
    next
      case 2
      then obtain pre suf where "cs = pre @ k @ suf" using Cons.IH by auto
      then have "c # cs = (c # pre) @ k @ suf" by simp
      then show ?thesis by blast
    qed
  next
    assume "\<exists>pre suf. c # cs = pre @ k @ suf"
    then obtain pre suf where e: "c # cs = pre @ k @ suf" by auto
    show "str_in k (c # cs)"
    proof (cases pre)
      case Nil
      with e have "startswith (c # cs) k" by (auto simp: startswith_iff)
      then show ?thesis by simp
    next
      case (Cons p ps)
      with e have "cs = ps @ k @ suf" by simp
      then have "str_in k cs" using Cons.IH by blast
      then show ?thesis by simp
    qed
  qed
qed

lemma fold_score: 
  "fold (\<lambda>keyword score. if P keyword then score + 1 else score) kws (n::nat) = n + length (filter P kws)"
  by (induction kws arbitrary: n) auto

lemma current_score_eq: "current_score kws ql = length (filter (\<lambda>k. str_in k ql) kws)"
  by (simp add: current_score_def fold_score)

lemma fold_best:
  "fold (\<lambda>(faq_id, item) (b, bid). if f item > b then (f item, Some faq_id) else (b, bid)) db (b0 :: nat, bid0) = r \<Longrightarrow>
   (if \<forall>i<length db. f (snd (db ! i)) \<le> b0 then r = (b0, bid0)
    else \<exists>i<length db. r = (f (snd (db ! i)), Some (fst (db ! i))) \<and> b0 < f (snd (db ! i)) \<and>
           (\<forall>j<length db. f (snd (db ! j)) \<le> f (snd (db ! i))) \<and>
           (\<forall>j<i. f (snd (db ! j)) < f (snd (db ! i))))"
proof (induction db arbitrary: b0 bid0)
  case Nil
  then show ?case by simp
next
  case (Cons x xs)
  obtain fid item where x: "x = (fid, item)" by (cases x)
  define b1 where "b1 = (if f item > b0 then f item else b0)"
  define bid1 where "bid1 = (if f item > b0 then Some fid else bid0)"
  have r: "fold (\<lambda>(faq_id, item) (b, bid). if f item > b then (f item, Some faq_id) else (b, bid)) xs (b1, bid1) = r"
    using Cons.prems by (auto simp: x b1_def bid1_def split: if_splits)
  note IH = Cons.IH [OF r]
  show ?case
  proof (cases "\<forall>i<length xs. f (snd (xs ! i)) \<le> b1")
    case True
    with IH have r1: "r = (b1, bid1)" by simp
    show ?thesis
    proof (cases "f item > b0")
      case gt: True
      have "\<not> (\<forall>i<length (x # xs). f (snd ((x # xs) ! i)) \<le> b0)"
        using gt by (auto simp: x All_less_Suc2)
      moreover have "0 < length (x # xs) \<and> r = (f (snd ((x # xs) ! 0)), Some (fst ((x # xs) ! 0))) \<and>
           b0 < f (snd ((x # xs) ! 0)) \<and>
           (\<forall>j<length (x # xs). f (snd ((x # xs) ! j)) \<le> f (snd ((x # xs) ! 0))) \<and>
           (\<forall>j<0. f (snd ((x # xs) ! j)) < f (snd ((x # xs) ! 0)))"
        using gt True r1 by (auto simp: x b1_def bid1_def All_less_Suc2)
      ultimately show ?thesis by (simp only: if_False) blast
    next
      case le: False
      then have "\<forall>i<length (x # xs). f (snd ((x # xs) ! i)) \<le> b0"
        using True by (auto simp: x b1_def All_less_Suc2)
      moreover have "r = (b0, bid0)" using le r1 by (simp add: b1_def bid1_def)
      ultimately show ?thesis by simp
    qed
  next
    case False
    with IH obtain i where i: "i < length xs" "r = (f (snd (xs ! i)), Some (fst (xs ! i)))"
      "b1 < f (snd (xs ! i))" "\<forall>j<length xs. f (snd (xs ! j)) \<le> f (snd (xs ! i))"
      "\<forall>j<i. f (snd (xs ! j)) < f (snd (xs ! i))"
      by (simp only: if_False) blast
    have b01: "b0 \<le> b1" "f item \<le> b1" by (auto simp: b1_def)
    have "\<not> (\<forall>k<length (x # xs). f (snd ((x # xs) ! k)) \<le> b0)"
    proof
      assume "\<forall>k<length (x # xs). f (snd ((x # xs) ! k)) \<le> b0"
      then have "f (snd ((x # xs) ! Suc i)) \<le> b0" using i(1) by auto
      then show False using i(3) b01 by simp
    qed
    moreover have "Suc i < length (x # xs) \<and> r = (f (snd ((x # xs) ! Suc i)), Some (fst ((x # xs) ! Suc i))) \<and>
           b0 < f (snd ((x # xs) ! Suc i)) \<and>
           (\<forall>j<length (x # xs). f (snd ((x # xs) ! j)) \<le> f (snd ((x # xs) ! Suc i))) \<and>
           (\<forall>j<Suc i. f (snd ((x # xs) ! j)) < f (snd ((x # xs) ! Suc i)))"
      using i b01 by (auto simp: x All_less_Suc2)
    ultimately show ?thesis by (simp only: if_False) blast
  qed
qed

lemma keyword_count_current_score:
  "keyword_count item user_query = current_score (keywords item) (lower user_query)"
  by (simp add: keyword_count_def current_score_eq occurs_in_def str_in_iff)

lemma best_match_fold:
  "best_match db ql = fold (\<lambda>(faq_id, item) (b, bid).
      if (\<lambda>item. current_score (keywords item) ql) item > b
      then ((\<lambda>item. current_score (keywords item) ql) item, Some faq_id) else (b, bid)) db (0, None)"
  by (simp add: best_match_def)

lemma best_match_cases:
  "(if \<forall>i<length db. current_score (keywords (snd (db ! i))) ql = 0 then best_match db ql = (0, None)
    else \<exists>i<length db. best_match db ql = (current_score (keywords (snd (db ! i))) ql, Some (fst (db ! i))) \<and>
           0 < current_score (keywords (snd (db ! i))) ql \<and>
           (\<forall>j<length db. current_score (keywords (snd (db ! j))) ql \<le> current_score (keywords (snd (db ! i))) ql) \<and>
           (\<forall>j<i. current_score (keywords (snd (db ! j))) ql < current_score (keywords (snd (db ! i))) ql))"
  using fold_best [where f = "\<lambda>item. current_score (keywords item) ql" and db = db and ?b0.0 = 0
      and ?bid0.0 = None, OF best_match_fold [symmetric]]
  by simp



lemma map_of_nth:
  assumes d: "distinct (map fst db)" and i: "i < length db"
  shows "map_of db (fst (db ! i)) = Some (snd (db ! i))"
proof -
  have "(fst (db ! i), snd (db ! i)) \<in> set db" using i by simp
  then show ?thesis using d by simp
qed

lemma best_match_none:
  assumes h: "\<forall>i<length db. keyword_count (snd (db ! i)) q = 0"
  shows "best_match db (lower q) = (0, None)"
proof -
  have h': "\<forall>i<length db. current_score (keywords (snd (db ! i))) (lower q) = 0"
    using h unfolding keyword_count_current_score .
  show ?thesis
    using best_match_cases [of db "lower q", unfolded if_P [OF h']] .
qed

lemma best_match_some:
  assumes h: "\<not> (\<forall>i<length db. keyword_count (snd (db ! i)) q = 0)"
  shows "\<exists>i<length db. best_match db (lower q) = (keyword_count (snd (db ! i)) q, Some (fst (db ! i))) \<and>
           0 < keyword_count (snd (db ! i)) q \<and>
           (\<forall>j<length db. keyword_count (snd (db ! j)) q \<le> keyword_count (snd (db ! i)) q) \<and>
           (\<forall>j<i. keyword_count (snd (db ! j)) q < keyword_count (snd (db ! i)) q)"
proof -
  have h': "\<not> (\<forall>i<length db. current_score (keywords (snd (db ! i))) (lower q) = 0)"
    using h unfolding keyword_count_current_score .
  show ?thesis
    unfolding keyword_count_current_score
    using best_match_cases [of db "lower q", unfolded if_not_P [OF h']] .
qed


lemma find_faq_answer_none:
  assumes h: "\<forall>i<length db. keyword_count (snd (db ! i)) q = 0"
  shows "find_faq_answer db q = None"
  unfolding find_faq_answer_def best_match_none [OF h] by simp

lemma find_faq_answer_some:
  assumes d: "distinct (map fst db)" and ne: "\<forall>i<length db. fst (db ! i) \<noteq> []"
    and h: "\<not> (\<forall>i<length db. keyword_count (snd (db ! i)) q = 0)"
  shows "\<exists>i<length db. find_faq_answer db q = Some (snd (db ! i)) \<and>
           1 \<le> keyword_count (snd (db ! i)) q \<and>
           (\<forall>j<length db. keyword_count (snd (db ! j)) q \<le> keyword_count (snd (db ! i)) q) \<and>
           (\<forall>j<i. keyword_count (snd (db ! j)) q < keyword_count (snd (db ! i)) q)"
proof -
  obtain i where i: "i < length db"
      and bm: "best_match db (lower q) = (keyword_count (snd (db ! i)) q, Some (fst (db ! i)))"
      and pos: "0 < keyword_count (snd (db ! i)) q"
      and mx: "\<forall>j<length db. keyword_count (snd (db ! j)) q \<le> keyword_count (snd (db ! i)) q"
      and fs: "\<forall>j<i. keyword_count (snd (db ! j)) q < keyword_count (snd (db ! i)) q"
    using best_match_some [OF h] by blast
  have nei: "fst (db ! i) \<noteq> []" using ne i by blast
  have "find_faq_answer db q = Some (snd (db ! i))"
    unfolding find_faq_answer_def bm using nei pos map_of_nth [OF d i] by simp
  moreover have "1 \<le> keyword_count (snd (db ! i)) q" using pos by simp
  ultimately show ?thesis using i mx fs by blast
qed

lemma faq_database_init_distinct: "distinct (map fst faq_database_init)"
  unfolding faq_database_init_def by simp

lemma faq_database_init_ids: "\<forall>i<length faq_database_init. fst (faq_database_init ! i) \<noteq> []"
proof -
  have "\<forall>x\<in>set faq_database_init. fst x \<noteq> []"
    unfolding faq_database_init_def by simp
  then show ?thesis by simp
qed

text \<open>
  The matcher on the declared FAQ store, and the handler \<open>get_faq\<close> on a state that
  holds it.
\<close>

lemma faq_matcher_cases:
  assumes init: "faq_database s = faq_database_init"
  shows "((\<forall>i<length faq_database_init. keyword_count (snd (faq_database_init ! i)) q = 0) \<longrightarrow>
            find_faq_answer (faq_database s) q = None \<and>
            fst (get_faq s q) = \<lparr>matched_question = None, faq_answer = faq_fallback\<rparr>) \<and>
         (\<not> (\<forall>i<length faq_database_init. keyword_count (snd (faq_database_init ! i)) q = 0) \<longrightarrow>
            (\<exists>i<length faq_database_init.
               find_faq_answer (faq_database s) q = Some (snd (faq_database_init ! i)) \<and>
               fst (get_faq s q) =
                 \<lparr>matched_question = Some (question (snd (faq_database_init ! i))),
                  faq_answer = answer (snd (faq_database_init ! i))\<rparr> \<and>
               1 \<le> keyword_count (snd (faq_database_init ! i)) q \<and>
               (\<forall>j<length faq_database_init.
                  keyword_count (snd (faq_database_init ! j)) q
                    \<le> keyword_count (snd (faq_database_init ! i)) q) \<and>
               (\<forall>j<i. keyword_count (snd (faq_database_init ! j)) q
                    < keyword_count (snd (faq_database_init ! i)) q)))"
proof (intro conjI impI)
  assume h: "\<forall>i<length faq_database_init. keyword_count (snd (faq_database_init ! i)) q = 0"
  show "find_faq_answer (faq_database s) q = None"
    unfolding init by (rule find_faq_answer_none [OF h])
  then show "fst (get_faq s q) = \<lparr>matched_question = None, faq_answer = faq_fallback\<rparr>"
    by (simp add: get_faq_def)
next
  assume h: "\<not> (\<forall>i<length faq_database_init. keyword_count (snd (faq_database_init ! i)) q = 0)"
  obtain i where i: "i < length faq_database_init"
    and f: "find_faq_answer faq_database_init q = Some (snd (faq_database_init ! i))"
    and rest: "1 \<le> keyword_count (snd (faq_database_init ! i)) q"
      "\<forall>j<length faq_database_init.
          keyword_count (snd (faq_database_init ! j)) q \<le> keyword_count (snd (faq_database_init ! i)) q"
      "\<forall>j<i. keyword_count (snd (faq_database_init ! j)) q < keyword_count (snd (faq_database_init ! i)) q"
    using find_faq_answer_some [OF faq_database_init_distinct faq_database_init_ids h] by blast
  have g: "fst (get_faq s q) =
                 \<lparr>matched_question = Some (question (snd (faq_database_init ! i))),
                  faq_answer = answer (snd (faq_database_init ! i))\<rparr>"
    by (simp add: get_faq_def init f)
  from i f g rest show "\<exists>i<length faq_database_init.
               find_faq_answer (faq_database s) q = Some (snd (faq_database_init ! i)) \<and>
               fst (get_faq s q) =
                 \<lparr>matched_question = Some (question (snd (faq_database_init ! i))),
                  faq_answer = answer (snd (faq_database_init ! i))\<rparr> \<and>
               1 \<le> keyword_count (snd (faq_database_init ! i)) q \<and>
               (\<forall>j<length faq_database_init.
                  keyword_count (snd (faq_database_init ! j)) q
                    \<le> keyword_count (snd (faq_database_init ! i)) q) \<and>
               (\<forall>j<i. keyword_count (snd (faq_database_init ! j)) q
                    < keyword_count (snd (faq_database_init ! i)) q)"
    unfolding init by blast
qed

lemma forgot_password_score:
  "keyword_count (snd (faq_database_init ! 0)) ''I forgot my password'' = 2"
  unfolding keyword_count_current_score by code_simp

lemma forgot_password_response:
  "fst (get_faq init_state ''I forgot my password'') =
     \<lparr>matched_question = Some ''How do I reset my password?'',
      faq_answer = ''You can reset your password by visiting the 'Account Settings' page and clicking on 'Forgot Password'. An email will be sent to you with instructions.''\<rparr>"
  by code_simp

lemma post_support_faq_valid:
  "3 \<le> length q \<Longrightarrow> post_support_faq s (Some q) = (Inr (fst (get_faq s q)), s)"
  by (simp add: post_support_faq_def get_faq_def split: option.splits)

lemma post_support_faq_short:
  "length q < 3 \<Longrightarrow> post_support_faq s (Some q) = (Inl RequestValidationError, s)"
  by (simp add: post_support_faq_def)

text \<open>
  C1, as stated, fails at the endpoint: for the query "ab" no entry has a score of 1 or more
  and the matcher reports no match, but the request is answered with a validation error
  (status 422) and not with the fallback answer, since \<open>FAQQuery\<close> wants at least 3
  characters.
\<close>

theorem short_query_counterexample:
  "find_faq_answer (faq_database init_state) ''ab'' = None \<and>
   fst (post_support_faq init_state (Some ''ab'')) = Inl RequestValidationError \<and>
   fst (post_support_faq init_state (Some ''ab''))
     \<noteq> Inr \<lparr>matched_question = None, faq_answer = faq_fallback\<rparr> \<and>
   http_status RequestValidationError = 422"
proof -
  have "find_faq_answer (faq_database init_state) ''ab'' = None" by code_simp
  moreover have "post_support_faq init_state (Some ''ab'') = (Inl RequestValidationError, init_state)"
    by (rule post_support_faq_short) simp
  ultimately show ?thesis by simp
qed

text \<open>
  C1, amended. For every query, the matcher scores each entry of the FAQ store by the number
  of its keywords that occur in the lower-cased query. If every score is 0 it returns nothing
  and the handler answers with the fallback and no matched question. Otherwise it returns an
  entry whose score is at least 1 and the highest of all, and every entry declared before it
  has a strictly lower score; the handler answers with that entry's question and answer. The
  endpoint gives the handler's answer for every query of at least 3 characters, and rejects a
  shorter one with a validation error before the matcher runs.
\<close>

theorem faq_matcher_best_entry:
  assumes init: "faq_database s = faq_database_init"
  shows "((\<forall>i<length faq_database_init. keyword_count (snd (faq_database_init ! i)) q = 0) \<longrightarrow>
            find_faq_answer (faq_database s) q = None \<and>
            fst (get_faq s q) = \<lparr>matched_question = None, faq_answer = faq_fallback\<rparr>) \<and>
         (\<not> (\<forall>i<length faq_database_init. keyword_count (snd (faq_database_init ! i)) q = 0) \<longrightarrow>
            (\<exists>i<length faq_database_init.
               find_faq_answer (faq_database s) q = Some (snd (faq_database_init ! i)) \<and>
               fst (get_faq s q) =
                 \<lparr>matched_question = Some (question (snd (faq_database_init ! i))),
                  faq_answer = answer (snd (faq_database_init ! i))\<rparr> \<and>
               1 \<le> keyword_count (snd (faq_database_init ! i)) q \<and>
               (\<forall>j<length faq_database_init.
                  keyword_count (snd (faq_database_init ! j)) q
                    \<le> keyword_count (snd (faq_database_init ! i)) q) \<and>
               (\<forall>j<i. keyword_count (snd (faq_database_init ! j)) q
                    < keyword_count (snd (faq_database_init ! i)) q))) \<and>
         (3 \<le> length q \<longrightarrow> post_support_faq s (Some q) = (Inr (fst (get_faq s q)), s)) \<and>
         (length q < 3 \<longrightarrow> post_support_faq s (Some q) = (Inl RequestValidationError, s))"
  using faq_matcher_cases [OF init, of q] post_support_faq_valid [of q s]
    post_support_faq_short [of q s]
  by blast

theorem faq_matcher_best_entry_witness:
  "faq_database init_state = faq_database_init \<and>
   \<not> (\<forall>i<length faq_database_init.
         keyword_count (snd (faq_database_init ! i)) ''I forgot my password'' = 0) \<and>
   3 \<le> length ''I forgot my password'' \<and>
   (\<exists>i<length faq_database_init.
      find_faq_answer (faq_database init_state) ''I forgot my password''
        = Some (snd (faq_database_init ! i)) \<and>
      1 \<le> keyword_count (snd (faq_database_init ! i)) ''I forgot my password'' \<and>
      (\<forall>j<i. keyword_count (snd (faq_database_init ! j)) ''I forgot my password''
           < keyword_count (snd (faq_database_init ! i)) ''I forgot my password'')) \<and>
   fst (post_support_faq init_state (Some ''I forgot my password'')) =
     Inr \<lparr>matched_question = Some ''How do I reset my password?'',
          faq_answer = ''You can reset your password by visiting the 'Account Settings' page and clicking on 'Forgot Password'. An email will be sent to you with instructions.''\<rparr>"
proof -
  have h1: "faq_database init_state = faq_database_init" by (simp add: init_state_def)
  have len: "0 < length faq_database_init" by (simp add: faq_database_init_def)
  have h2: "\<not> (\<forall>i<length faq_database_init.
         keyword_count (snd (faq_database_init ! i)) ''I forgot my password'' = 0)"
  proof
    assume "\<forall>i<length faq_database_init.
         keyword_count (snd (faq_database_init ! i)) ''I forgot my password'' = 0"
    then have "keyword_count (snd (faq_database_init ! 0)) ''I forgot my password'' = 0"
      using len by blast
    then show False unfolding forgot_password_score by simp
  qed
  have h3: "3 \<le> length ''I forgot my password''" by simp
  note t = faq_matcher_best_entry [OF h1, of "''I forgot my password''"]
  from t h2 have a: "\<exists>i<length faq_database_init.
      find_faq_answer (faq_database init_state) ''I forgot my password''
        = Some (snd (faq_database_init ! i)) \<and>
      1 \<le> keyword_count (snd (faq_database_init ! i)) ''I forgot my password'' \<and>
      (\<forall>j<i. keyword_count (snd (faq_database_init ! j)) ''I forgot my password''
           < keyword_count (snd (faq_database_init ! i)) ''I forgot my password'')"
    by blast
  from t h3 have "post_support_faq init_state (Some ''I forgot my password'') =
      (Inr (fst (get_faq init_state ''I forgot my password'')), init_state)"
    by blast
  then have b: "fst (post_support_faq init_state (Some ''I forgot my password'')) =
     Inr \<lparr>matched_question = Some ''How do I reset my password?'',
          faq_answer = ''You can reset your password by visiting the 'Account Settings' page and clicking on 'Forgot Password'. An email will be sent to you with instructions.''\<rparr>"
    unfolding forgot_password_response by simp
  from h1 h2 h3 a b show ?thesis by blast
qed

subsection \<open>Sentiment classifier\<close>

lemma float_0_1_pos: "0 < float_0_1"
  by (simp add: float_0_1_def)

text \<open>
  C6. The label is positive exactly when the score is above the threshold, negative exactly
  when it is below the negated threshold, and neutral exactly when it lies between the two,
  both bounds included; and two texts with the same score get the same label. The threshold
  is the double nearest to 0.1, which lies above 0.1 by less than 1e-17: a score of at most
  0.1 is never positive and a score of at least 0.1 + 1e-17 always is, and likewise below;
  so 0.2 is positive, 0.05, 0 and -0.05 are neutral and -0.2 is negative.
\<close>

theorem sentiment_thresholds:
  "(get_sentiment polarity text = ''positive'' \<longleftrightarrow> polarity text > float_0_1) \<and>
   (get_sentiment polarity text = ''negative'' \<longleftrightarrow> polarity text < - float_0_1) \<and>
   (get_sentiment polarity text = ''neutral'' \<longleftrightarrow>
      - float_0_1 \<le> polarity text \<and> polarity text \<le> float_0_1) \<and>
   (polarity text = polarity text' \<longrightarrow>
      get_sentiment polarity text = get_sentiment polarity text') \<and>
   1 / 10 < float_0_1 \<and> float_0_1 < 1 / 10 + 1 / 10 ^ 17 \<and>
   (polarity text \<le> 1 / 10 \<longrightarrow> get_sentiment polarity text \<noteq> ''positive'') \<and>
   (1 / 10 + 1 / 10 ^ 17 \<le> polarity text \<longrightarrow> get_sentiment polarity text = ''positive'') \<and>
   (- (1 / 10) \<le> polarity text \<longrightarrow> get_sentiment polarity text \<noteq> ''negative'') \<and>
   (polarity text \<le> - (1 / 10) - 1 / 10 ^ 17 \<longrightarrow> get_sentiment polarity text = ''negative'') \<and>
   get_sentiment (\<lambda>t. 1 / 5) text = ''positive'' \<and>
   get_sentiment (\<lambda>t. 1 / 20) text = ''neutral'' \<and>
   get_sentiment (\<lambda>t. 0) text = ''neutral'' \<and>
   get_sentiment (\<lambda>t. - (1 / 20)) text = ''neutral'' \<and>
   get_sentiment (\<lambda>t. - (1 / 5)) text = ''negative'' \<and>
   get_sentiment (\<lambda>t. float_0_1) text = ''neutral'' \<and>
   get_sentiment (\<lambda>t. - float_0_1) text = ''neutral''"
proof -
  have lo: "1 / 10 < float_0_1" by (simp add: float_0_1_def)
  have hi: "float_0_1 < 1 / 10 + 1 / 10 ^ 17" by (simp add: float_0_1_def)
  have a: "(get_sentiment polarity text = ''positive'' \<longleftrightarrow> polarity text > float_0_1) \<and>
   (get_sentiment polarity text = ''negative'' \<longleftrightarrow> polarity text < - float_0_1) \<and>
   (get_sentiment polarity text = ''neutral'' \<longleftrightarrow>
      - float_0_1 \<le> polarity text \<and> polarity text \<le> float_0_1) \<and>
   (polarity text = polarity text' \<longrightarrow>
      get_sentiment polarity text = get_sentiment polarity text')"
    using lo by (auto simp: get_sentiment_def)
  have b: "(polarity text \<le> 1 / 10 \<longrightarrow> get_sentiment polarity text \<noteq> ''positive'') \<and>
   (1 / 10 + 1 / 10 ^ 17 \<le> polarity text \<longrightarrow> get_sentiment polarity text = ''positive'') \<and>
   (- (1 / 10) \<le> polarity text \<longrightarrow> get_sentiment polarity text \<noteq> ''negative'') \<and>
   (polarity text \<le> - (1 / 10) - 1 / 10 ^ 17 \<longrightarrow> get_sentiment polarity text = ''negative'')"
    using lo hi by (auto simp: get_sentiment_def)
  have c: "get_sentiment (\<lambda>t. 1 / 5) text = ''positive'' \<and>
   get_sentiment (\<lambda>t. 1 / 20) text = ''neutral'' \<and>
   get_sentiment (\<lambda>t. 0) text = ''neutral'' \<and>
   get_sentiment (\<lambda>t. - (1 / 20)) text = ''neutral'' \<and>
   get_sentiment (\<lambda>t. - (1 / 5)) text = ''negative''"
    by (simp add: get_sentiment_def float_0_1_def)
  have d: "get_sentiment (\<lambda>t. float_0_1) text = ''neutral'' \<and>
   get_sentiment (\<lambda>t. - float_0_1) text = ''neutral''"
    using lo by (simp add: get_sentiment_def)
  from a b c d lo hi show ?thesis by blast
qed

theorem sentiment_thresholds_witness:
  "example_polarity ''The package arrived on Tuesday'' = example_polarity ''It is a box'' \<and>
   get_sentiment example_polarity ''The package arrived on Tuesday''
     = get_sentiment example_polarity ''It is a box'' \<and>
   example_polarity ''Good enough'' \<le> 1 / 10 \<and>
   get_sentiment example_polarity ''Good enough'' \<noteq> ''positive'' \<and>
   1 / 10 + 1 / 10 ^ 17 \<le> example_polarity ''This is excellent and wonderful'' \<and>
   get_sentiment example_polarity ''This is excellent and wonderful'' = ''positive'' \<and>
   - (1 / 10) \<le> example_polarity ''Not that good'' \<and>
   get_sentiment example_polarity ''Not that good'' \<noteq> ''negative'' \<and>
   example_polarity ''This is terrible and awful'' \<le> - (1 / 10) - 1 / 10 ^ 17 \<and>
   get_sentiment example_polarity ''This is terrible and awful'' = ''negative''"
proof -
  have h1: "example_polarity ''The package arrived on Tuesday'' = example_polarity ''It is a box''"
    by (simp add: example_polarity_def)
  have h2: "example_polarity ''Good enough'' \<le> 1 / 10"
    by (simp add: example_polarity_def)
  have h3: "1 / 10 + 1 / 10 ^ 17 \<le> example_polarity ''This is excellent and wonderful''"
    by (simp add: example_polarity_def)
  have h4: "- (1 / 10) \<le> example_polarity ''Not that good''"
    by (simp add: example_polarity_def)
  have h5: "example_polarity ''This is terrible and awful'' \<le> - (1 / 10) - 1 / 10 ^ 17"
    by (simp add: example_polarity_def)
  from sentiment_thresholds [of example_polarity "''The package arrived on Tuesday''" "''It is a box''"] h1
  have c1: "get_sentiment example_polarity ''The package arrived on Tuesday''
     = get_sentiment example_polarity ''It is a box''" by blast
  from sentiment_thresholds [of example_polarity "''Good enough''"] h2
  have c2: "get_sentiment example_polarity ''Good enough'' \<noteq> ''positive''" by blast
  from sentiment_thresholds [of example_polarity "''This is excellent and wonderful''"] h3
  have c3: "get_sentiment example_polarity ''This is excellent and wonderful'' = ''positive''" by blast
  from sentiment_thresholds [of example_polarity "''Not that good''"] h4
  have c4: "get_sentiment example_polarity ''Not that good'' \<noteq> ''negative''" by blast
  from sentiment_thresholds [of example_polarity "''This is terrible and awful''"] h5
  have c5: "get_sentiment example_polarity ''This is terrible and awful'' = ''negative''" by blast
  from h1 h2 h3 h4 h5 c1 c2 c3 c4 c5 show ?thesis by blast
qed

subsection \<open>Tickets\<close>

text \<open>
  C3. A lookup of an identifier that is a key of the ticket store returns the record stored
  under it, each of its six fields in the field of the same name; it fails with status 404
  and detail "Ticket not found" exactly when the identifier is no key; and it leaves the
  state as it was.
\<close>

theorem ticket_lookup:
  "(\<forall>d. support_tickets_db s tid = Some d \<longrightarrow>
        fst (get_ticket_status s tid) =
          Inr \<lparr>resp_ticket_id = ticket_id d, resp_user_email = user_email d,
               resp_issue_description = issue_description d, resp_status = status d,
               resp_sentiment = sentiment d, resp_timestamp = timestamp d\<rparr>) \<and>
   (fst (get_ticket_status s tid) = Inl (HTTPException 404 ''Ticket not found'')
      \<longleftrightarrow> tid \<notin> dom (support_tickets_db s)) \<and>
   ((\<exists>e. fst (get_ticket_status s tid) = Inl e) \<longleftrightarrow> tid \<notin> dom (support_tickets_db s)) \<and>
   http_status (HTTPException 404 ''Ticket not found'') = 404 \<and>
   snd (get_ticket_status s tid) = s"
  by (auto simp: get_ticket_status_def TicketResponse_of_def split: option.splits)

text \<open>
  C2. A submission with both fields and a description of at least 10 characters is accepted;
  its response carries the drawn identifier and the submitted fields, and a lookup of that
  identifier in the resulting state returns the same response, field for field.
\<close>

theorem submit_then_retrieve:
  assumes email: "body_user_email body = Some email"
    and descr: "body_issue_description body = Some description"
    and len: "10 \<le> length description"
  shows "\<exists>r s'. post_support_ticket polarity env s body = (Inr r, s') \<and>
           r = \<lparr>resp_ticket_id = uuid4 env, resp_user_email = email,
                resp_issue_description = description, resp_status = ''submitted'',
                resp_sentiment = get_sentiment polarity description,
                resp_timestamp = utcnow_isoformat env @ ''Z''\<rparr> \<and>
           fst (get_ticket_status s' (resp_ticket_id r)) = Inr r"
proof -
  have v: "validate_TicketInput body = Inr \<lparr>input_email = email, input_description = description\<rparr>"
    using email descr len by (simp add: validate_TicketInput_def)
  show ?thesis
    by (simp add: post_support_ticket_def v submit_ticket_def get_ticket_status_def
        TicketResponse_of_def Let_def)
qed

theorem submit_then_retrieve_witness:
  "body_user_email example_body = Some ''user@example.com'' \<and>
   body_issue_description example_body = Some ''My order is late and I'm very unhappy!'' \<and>
   10 \<le> length ''My order is late and I'm very unhappy!'' \<and>
   (\<exists>r s'. post_support_ticket (\<lambda>t. - 1) example_draws init_state example_body = (Inr r, s') \<and>
      resp_ticket_id r = ''3f2b8c1e-5d4a-4e6f-9a7b-0c1d2e3f4a5b'' \<and>
      resp_sentiment r = ''negative'' \<and>
      resp_timestamp r = ''2024-05-01T12:00:00.000123Z'' \<and>
      fst (get_ticket_status s' (resp_ticket_id r)) = Inr r)"
proof -
  have e: "body_user_email example_body = Some ''user@example.com''"
    by (simp add: example_body_def)
  have d: "body_issue_description example_body = Some ''My order is late and I'm very unhappy!''"
    by (simp add: example_body_def)
  have l: "10 \<le> length ''My order is late and I'm very unhappy!''" by simp
  have n: "get_sentiment (\<lambda>t. - 1) ''My order is late and I'm very unhappy!'' = ''negative''"
    by (simp add: get_sentiment_def float_0_1_def)
  from submit_then_retrieve [OF e d l, of "\<lambda>t. - 1" example_draws init_state]
  obtain r s' where
    "post_support_ticket (\<lambda>t. - 1) example_draws init_state example_body = (Inr r, s')"
    "r = \<lparr>resp_ticket_id = uuid4 example_draws, resp_user_email = ''user@example.com'',
          resp_issue_description = ''My order is late and I'm very unhappy!'',
          resp_status = ''submitted'',
          resp_sentiment = get_sentiment (\<lambda>t. - 1) ''My order is late and I'm very unhappy!'',
          resp_timestamp = utcnow_isoformat example_draws @ ''Z''\<rparr>"
    "fst (get_ticket_status s' (resp_ticket_id r)) = Inr r"
    by blast
  then have "post_support_ticket (\<lambda>t. - 1) example_draws init_state example_body = (Inr r, s') \<and>
      resp_ticket_id r = ''3f2b8c1e-5d4a-4e6f-9a7b-0c1d2e3f4a5b'' \<and>
      resp_sentiment r = ''negative'' \<and>
      resp_timestamp r = ''2024-05-01T12:00:00.000123Z'' \<and>
      fst (get_ticket_status s' (resp_ticket_id r)) = Inr r"
    by (simp add: n example_draws_def)
  then show ?thesis using e d l by blast
qed

text \<open>
  C7. A body without an email, without a description, or with a description shorter than 10
  characters is answered with a validation error, status 422, and the state, and so the
  ticket store, is the one before the request.
\<close>

theorem invalid_ticket_rejected:
  assumes "body_user_email body = None \<or> body_issue_description body = None \<or>
           (\<exists>d. body_issue_description body = Some d \<and> length d < 10)"
  shows "post_support_ticket polarity env s body = (Inl RequestValidationError, s) \<and>
         http_status RequestValidationError = 422 \<and>
         support_tickets_db (snd (post_support_ticket polarity env s body)) = support_tickets_db s"
  using assms
  by (auto simp: post_support_ticket_def validate_TicketInput_def split: option.splits)

theorem invalid_ticket_rejected_witness:
  "(\<exists>d. body_issue_description
          \<lparr>body_user_email = Some ''user@example.com'', body_issue_description = Some ''too short''\<rparr>
        = Some d \<and> length d < 10) \<and>
   post_support_ticket (\<lambda>t. 0) example_draws init_state
     \<lparr>body_user_email = Some ''user@example.com'', body_issue_description = Some ''too short''\<rparr>
     = (Inl RequestValidationError, init_state)"
proof -
  have h: "\<exists>d. body_issue_description
          \<lparr>body_user_email = Some ''user@example.com'', body_issue_description = Some ''too short''\<rparr>
        = Some d \<and> length d < 10"
    by simp
  then have h': "body_user_email
          \<lparr>body_user_email = Some ''user@example.com'', body_issue_description = Some ''too short''\<rparr> = None \<or>
       body_issue_description
          \<lparr>body_user_email = Some ''user@example.com'', body_issue_description = Some ''too short''\<rparr> = None \<or>
       (\<exists>d. body_issue_description
          \<lparr>body_user_email = Some ''user@example.com'', body_issue_description = Some ''too short''\<rparr>
        = Some d \<and> length d < 10)"
    by blast
  from invalid_ticket_rejected [OF h', of "\<lambda>t. 0" example_draws init_state] h
  show ?thesis by blast
qed

theorem ticket_lookup_witness:
  "support_tickets_db (snd (post_support_ticket (\<lambda>t. - 1) example_draws init_state example_body))
     ''3f2b8c1e-5d4a-4e6f-9a7b-0c1d2e3f4a5b''
     = Some \<lparr>ticket_id = ''3f2b8c1e-5d4a-4e6f-9a7b-0c1d2e3f4a5b'', user_email = ''user@example.com'',
          issue_description = ''My order is late and I'm very unhappy!'', status = ''submitted'',
          sentiment = ''negative'', timestamp = ''2024-05-01T12:00:00.000123Z''\<rparr> \<and>
   fst (get_ticket_status (snd (post_support_ticket (\<lambda>t. - 1) example_draws init_state example_body))
     ''3f2b8c1e-5d4a-4e6f-9a7b-0c1d2e3f4a5b'')
     = Inr \<lparr>resp_ticket_id = ''3f2b8c1e-5d4a-4e6f-9a7b-0c1d2e3f4a5b'',
            resp_user_email = ''user@example.com'',
            resp_issue_description = ''My order is late and I'm very unhappy!'',
            resp_status = ''submitted'', resp_sentiment = ''negative'',
            resp_timestamp = ''2024-05-01T12:00:00.000123Z''\<rparr> \<and>
   snd (get_ticket_status (snd (post_support_ticket (\<lambda>t. - 1) example_draws init_state example_body))
     ''3f2b8c1e-5d4a-4e6f-9a7b-0c1d2e3f4a5b'')
     = snd (post_support_ticket (\<lambda>t. - 1) example_draws init_state example_body) \<and>
   ''no-such-ticket'' \<notin> dom (support_tickets_db (snd (post_support_ticket (\<lambda>t. - 1) example_draws init_state example_body))) \<and>
   fst (get_ticket_status (snd (post_support_ticket (\<lambda>t. - 1) example_draws init_state example_body))
     ''no-such-ticket'') = Inl (HTTPException 404 ''Ticket not found'')"
proof -
  let ?s = "snd (post_support_ticket (\<lambda>t. - 1) example_draws init_state example_body)"
  let ?d = "\<lparr>ticket_id = ''3f2b8c1e-5d4a-4e6f-9a7b-0c1d2e3f4a5b'', user_email = ''user@example.com'',
          issue_description = ''My order is late and I'm very unhappy!'', status = ''submitted'',
          sentiment = ''negative'', timestamp = ''2024-05-01T12:00:00.000123Z''\<rparr>"
  have v: "validate_TicketInput example_body =
     Inr \<lparr>input_email = ''user@example.com'', input_description = ''My order is late and I'm very unhappy!''\<rparr>"
    by (simp add: validate_TicketInput_def example_body_def)
  have n: "get_sentiment (\<lambda>t. - 1) ''My order is late and I'm very unhappy!'' = ''negative''"
    by (simp add: get_sentiment_def float_0_1_def)
  have db: "support_tickets_db ?s =
      (\<lambda>k. if k = ''3f2b8c1e-5d4a-4e6f-9a7b-0c1d2e3f4a5b'' then Some ?d else None)"
    by (simp add: post_support_ticket_def v submit_ticket_def Let_def example_draws_def
        init_state_def fun_eq_iff n)
  have a: "support_tickets_db ?s ''3f2b8c1e-5d4a-4e6f-9a7b-0c1d2e3f4a5b'' = Some ?d"
    unfolding db by simp
  have b: "''no-such-ticket'' \<notin> dom (support_tickets_db ?s)"
    unfolding db by (simp add: dom_def)
  from ticket_lookup [of ?s "''3f2b8c1e-5d4a-4e6f-9a7b-0c1d2e3f4a5b''"] a
  have c: "fst (get_ticket_status ?s ''3f2b8c1e-5d4a-4e6f-9a7b-0c1d2e3f4a5b'')
     = Inr \<lparr>resp_ticket_id = ''3f2b8c1e-5d4a-4e6f-9a7b-0c1d2e3f4a5b'',
            resp_user_email = ''user@example.com'',
            resp_issue_description = ''My order is late and I'm very unhappy!'',
            resp_status = ''submitted'', resp_sentiment = ''negative'',
            resp_timestamp = ''2024-05-01T12:00:00.000123Z''\<rparr>"
    by simp
  from ticket_lookup [of ?s "''3f2b8c1e-5d4a-4e6f-9a7b-0c1d2e3f4a5b''"]
  have e: "snd (get_ticket_status ?s ''3f2b8c1e-5d4a-4e6f-9a7b-0c1d2e3f4a5b'') = ?s"
    by blast
  from ticket_lookup [of ?s "''no-such-ticket''"] b
  have d: "fst (get_ticket_status ?s ''no-such-ticket'') = Inl (HTTPException 404 ''Ticket not found'')"
    by blast
  from a b c d e show ?thesis by blast
qed

subsection \<open>Action endpoint\<close>

lemma recognize_cases:
  "(\<exists>tok. track_order_search q = Some tok \<and>
      recognize_intent_and_extract_entities tables q =
        \<lparr>intent = cps ''track_order'', entities = [(cps ''order_id'', upper tok)],
         message = cps ''Fetching status for order '' @ upper tok @ cps ''...''\<rparr>) \<or>
   (track_order_search q = None \<and>
      intent (recognize_intent_and_extract_entities tables q) \<noteq> cps ''track_order'')"
  by (cases "track_order_search q")
     (simp_all add: recognize_intent_and_extract_entities_def Let_def cps_def)

lemma occurs_in_middle: "occurs_in k (pre @ k @ suf)"
  unfolding occurs_in_def by blast

lemma mocked_not_fetching:
  "cps ''Mocked: Order '' @ x \<noteq> cps ''Fetching status for order '' @ y"
  by (simp add: cps_def)

text \<open>
  C5. When the recognized intent is track_order, the handler keeps intent and entities and
  replaces the message by the mocked delivery status built from the extracted order id; that
  message contains the order id and "Tomorrow" and differs from the recognizer's. For any
  other intent the handler returns the recognizer's result as it is. The state is unchanged.
\<close>

theorem perform_action_message:
  "(intent (recognize_intent_and_extract_entities tables q) = cps ''track_order'' \<longrightarrow>
      (\<exists>order_id.
         entities (recognize_intent_and_extract_entities tables q) = [(cps ''order_id'', order_id)] \<and>
         fst (perform_action tables s q) =
           \<lparr>intent = cps ''track_order'', entities = [(cps ''order_id'', order_id)],
            message = cps ''Mocked: Order '' @ order_id
                        @ cps '' is currently out for delivery. Estimated arrival: Tomorrow.''\<rparr> \<and>
         occurs_in order_id (message (fst (perform_action tables s q))) \<and>
         occurs_in (cps ''Tomorrow'') (message (fst (perform_action tables s q))) \<and>
         message (fst (perform_action tables s q))
           \<noteq> message (recognize_intent_and_extract_entities tables q))) \<and>
   (intent (recognize_intent_and_extract_entities tables q) \<noteq> cps ''track_order'' \<longrightarrow>
      fst (perform_action tables s q) = recognize_intent_and_extract_entities tables q) \<and>
   snd (perform_action tables s q) = s"
proof (intro conjI impI)
  assume t: "intent (recognize_intent_and_extract_entities tables q) = cps ''track_order''"
  then obtain tok where r: "recognize_intent_and_extract_entities tables q =
        \<lparr>intent = cps ''track_order'', entities = [(cps ''order_id'', upper tok)],
         message = cps ''Fetching status for order '' @ upper tok @ cps ''...''\<rparr>"
    using recognize_cases [of q tables] by blast
  have p: "fst (perform_action tables s q) =
           \<lparr>intent = cps ''track_order'', entities = [(cps ''order_id'', upper tok)],
            message = cps ''Mocked: Order '' @ upper tok
                        @ cps '' is currently out for delivery. Estimated arrival: Tomorrow.''\<rparr>"
    by (simp add: perform_action_def r)
  have o1: "occurs_in (upper tok) (message (fst (perform_action tables s q)))"
    unfolding p using occurs_in_middle [of "upper tok" "cps ''Mocked: Order ''"
        "cps '' is currently out for delivery. Estimated arrival: Tomorrow.''"] by simp
  have split: "cps '' is currently out for delivery. Estimated arrival: Tomorrow.'' =
      cps '' is currently out for delivery. Estimated arrival: '' @ cps ''Tomorrow'' @ cps ''.''"
    by (simp add: cps_def)
  have o2: "occurs_in (cps ''Tomorrow'') (message (fst (perform_action tables s q)))"
    unfolding p split
    using occurs_in_middle [of "cps ''Tomorrow''"
        "cps ''Mocked: Order '' @ upper tok @ cps '' is currently out for delivery. Estimated arrival: ''"
        "cps ''.''"] by simp
  have ne: "message (fst (perform_action tables s q))
      \<noteq> message (recognize_intent_and_extract_entities tables q)"
    unfolding p r using mocked_not_fetching by simp
  from r p o1 o2 ne
  show "\<exists>order_id.
         entities (recognize_intent_and_extract_entities tables q) = [(cps ''order_id'', order_id)] \<and>
         fst (perform_action tables s q) =
           \<lparr>intent = cps ''track_order'', entities = [(cps ''order_id'', order_id)],
            message = cps ''Mocked: Order '' @ order_id
                        @ cps '' is currently out for delivery. Estimated arrival: Tomorrow.''\<rparr> \<and>
         occurs_in order_id (message (fst (perform_action tables s q))) \<and>
         occurs_in (cps ''Tomorrow'') (message (fst (perform_action tables s q))) \<and>
         message (fst (perform_action tables s q))
           \<noteq> message (recognize_intent_and_extract_entities tables q)"
    by (intro exI [of _ "upper tok"]) simp
next
  assume "intent (recognize_intent_and_extract_entities tables q) \<noteq> cps ''track_order''"
  then show "fst (perform_action tables s q) = recognize_intent_and_extract_entities tables q"
    by (simp add: perform_action_def Let_def)
next
  show "snd (perform_action tables s q) = s"
    by (simp add: perform_action_def Let_def)
qed

lemma recognize_track_example:
  "recognize_intent_and_extract_entities tables (cps ''Track my order ORD12345'') =
     \<lparr>intent = cps ''track_order'', entities = [(cps ''order_id'', cps ''ORD12345'')],
      message = cps ''Fetching status for order ORD12345...''\<rparr>"
  by code_simp

lemma recognize_greeting_example:
  "recognize_intent_and_extract_entities tables (cps ''hello there'') =
     \<lparr>intent = cps ''greeting'', entities = [], message = cps ''Hello! How can I help you today?''\<rparr>"
  by code_simp

theorem perform_action_message_witness:
  "intent (recognize_intent_and_extract_entities example_tables (cps ''Track my order ORD12345''))
     = cps ''track_order'' \<and>
   fst (perform_action example_tables init_state (cps ''Track my order ORD12345'')) =
     \<lparr>intent = cps ''track_order'', entities = [(cps ''order_id'', cps ''ORD12345'')],
      message = cps ''Mocked: Order ORD12345 is currently out for delivery. Estimated arrival: Tomorrow.''\<rparr> \<and>
   intent (recognize_intent_and_extract_entities example_tables (cps ''hello there''))
     \<noteq> cps ''track_order'' \<and>
   fst (perform_action example_tables init_state (cps ''hello there'')) =
     \<lparr>intent = cps ''greeting'', entities = [], message = cps ''Hello! How can I help you today?''\<rparr>"
proof -
  have a: "intent (recognize_intent_and_extract_entities example_tables (cps ''Track my order ORD12345''))
     = cps ''track_order''"
    unfolding recognize_track_example by simp
  have b: "intent (recognize_intent_and_extract_entities example_tables (cps ''hello there''))
     \<noteq> cps ''track_order''"
    unfolding recognize_greeting_example by (simp add: cps_def)
  from perform_action_message [of example_tables "cps ''Track my order ORD12345''" init_state] a
  obtain order_id where
    e: "entities (recognize_intent_and_extract_entities example_tables (cps ''Track my order ORD12345''))
          = [(cps ''order_id'', order_id)]"
    and p: "fst (perform_action example_tables init_state (cps ''Track my order ORD12345'')) =
           \<lparr>intent = cps ''track_order'', entities = [(cps ''order_id'', order_id)],
            message = cps ''Mocked: Order '' @ order_id
                        @ cps '' is currently out for delivery. Estimated arrival: Tomorrow.''\<rparr>"
    by blast
  from e have "order_id = cps ''ORD12345''" unfolding recognize_track_example by simp
  with p have c: "fst (perform_action example_tables init_state (cps ''Track my order ORD12345'')) =
     \<lparr>intent = cps ''track_order'', entities = [(cps ''order_id'', cps ''ORD12345'')],
      message = cps ''Mocked: Order ORD12345 is currently out for delivery. Estimated arrival: Tomorrow.''\<rparr>"
    by (simp add: cps_def)
  from perform_action_message [of example_tables "cps ''hello there''" init_state] b
  have "fst (perform_action example_tables init_state (cps ''hello there''))
      = recognize_intent_and_extract_entities example_tables (cps ''hello there'')"
    by blast
  then have d: "fst (perform_action example_tables init_state (cps ''hello there'')) =
     \<lparr>intent = cps ''greeting'', entities = [], message = cps ''Hello! How can I help you today?''\<rparr>"
    unfolding recognize_greeting_example .
  from a b c d show ?thesis by blast
qed

subsection \<open>Store invariants\<close>

lemma handle_not_submission:
  assumes "\<not> accepted_submission req"
  shows "snd (handle lib env s req) = s"
proof (cases req)
  case (PostFaq body)
  then show ?thesis
    by (simp add: post_support_faq_def get_faq_def split: option.splits prod.splits)
next
  case (PostTicket body)
  with assms obtain e where "validate_TicketInput body = Inl e"
    by (cases "validate_TicketInput body") simp_all
  with PostTicket show ?thesis by (simp add: post_support_ticket_def)
next
  case (GetTicket tid)
  then show ?thesis by (simp add: get_ticket_status_def split: option.splits)
next
  case (PostAction body)
  then show ?thesis
    by (simp add: post_support_action_def perform_action_def Let_def split: option.splits)
qed

lemma handle_submission:
  assumes "accepted_submission req"
  shows "\<exists>d. ticket_id d = uuid4 env \<and>
    snd (handle lib env s req) =
      s\<lparr>support_tickets_db := (support_tickets_db s)(uuid4 env \<mapsto> d)\<rparr>"
proof (cases req)
  case (PostTicket body)
  with assms obtain i where "validate_TicketInput body = Inr i"
    by (cases "validate_TicketInput body") simp_all
  let ?d = "\<lparr>ticket_id = uuid4 env, user_email = input_email i,
             issue_description = input_description i, status = ''submitted'',
             sentiment = get_sentiment (polarity_of lib) (input_description i),
             timestamp = utcnow_isoformat env @ ''Z''\<rparr>"
  have "ticket_id ?d = uuid4 env \<and>
    snd (handle lib env s req) =
      s\<lparr>support_tickets_db := (support_tickets_db s)(uuid4 env \<mapsto> ?d)\<rparr>"
    using PostTicket \<open>validate_TicketInput body = Inr i\<close>
    by (simp add: post_support_ticket_def submit_ticket_def Let_def)
  then show ?thesis by (rule exI [of _ ?d])
qed (use assms in simp_all)

lemma handle_faq_database: "faq_database (snd (handle lib env s req)) = faq_database s"
proof (cases "accepted_submission req")
  case True
  from handle_submission [OF True, of env lib s] show ?thesis by auto
next
  case False
  then show ?thesis by (simp add: handle_not_submission)
qed

lemma handle_store_invariant:
  assumes "store_invariant s"
  shows "store_invariant (snd (handle lib env s req))"
proof (cases "accepted_submission req")
  case True
  from handle_submission [OF True, of env lib s] obtain d where
    "ticket_id d = uuid4 env"
    "snd (handle lib env s req) = s\<lparr>support_tickets_db := (support_tickets_db s)(uuid4 env \<mapsto> d)\<rparr>"
    by blast
  with assms show ?thesis by (auto simp: store_invariant_def)
next
  case False
  with assms show ?thesis by (simp add: handle_not_submission)
qed

lemma handle_dom:
  "dom (support_tickets_db (snd (handle lib env s req))) =
     dom (support_tickets_db s) \<union> (if accepted_submission req then {uuid4 env} else {})"
proof (cases "accepted_submission req")
  case True
  from handle_submission [OF True, of env lib s] show ?thesis using True by auto
next
  case False
  then show ?thesis by (simp add: handle_not_submission)
qed

lemma handle_keeps:
  assumes "support_tickets_db s tid = Some d"
    and "\<not> (accepted_submission req \<and> uuid4 env = tid)"
  shows "support_tickets_db (snd (handle lib env s req)) tid = Some d"
proof (cases "accepted_submission req")
  case True
  with assms have ne: "tid \<noteq> uuid4 env" by auto
  from handle_submission [OF True, of env lib s] show ?thesis using assms(1) ne by auto
next
  case False
  with assms show ?thesis by (simp add: handle_not_submission)
qed

lemma run_append: "run lib s (tr1 @ tr2) = run lib (run lib s tr1) tr2"
  by (induction tr1 arbitrary: s) auto

lemma submitted_ids_append: "submitted_ids (tr1 @ tr2) = submitted_ids tr1 @ submitted_ids tr2"
  by (simp add: submitted_ids_def)

lemma submitted_ids_Cons:
  "submitted_ids ((env, req) # tr) =
     (if accepted_submission req then uuid4 env # submitted_ids tr else submitted_ids tr)"
  by (simp add: submitted_ids_def)

lemma run_properties:
  "faq_database (run lib s tr) = faq_database s \<and>
   (store_invariant s \<longrightarrow> store_invariant (run lib s tr)) \<and>
   dom (support_tickets_db (run lib s tr)) = dom (support_tickets_db s) \<union> set (submitted_ids tr) \<and>
   (\<forall>tid d. support_tickets_db s tid = Some d \<and> tid \<notin> set (submitted_ids tr) \<longrightarrow>
             support_tickets_db (run lib s tr) tid = Some d)"
proof (induction tr arbitrary: s)
  case Nil
  then show ?case by (simp add: submitted_ids_def)
next
  case (Cons step tr)
  obtain env req where step: "step = (env, req)" by (cases step)
  let ?s1 = "snd (handle lib env s req)"
  note IH = Cons.IH [of ?s1]
  have run: "run lib s (step # tr) = run lib ?s1 tr" by (simp add: step)
  have ids: "submitted_ids (step # tr) =
      (if accepted_submission req then uuid4 env # submitted_ids tr else submitted_ids tr)"
    by (simp add: step submitted_ids_Cons)
  have d1: "dom (support_tickets_db ?s1) =
     dom (support_tickets_db s) \<union> (if accepted_submission req then {uuid4 env} else {})"
    by (rule handle_dom)
  have a: "faq_database (run lib s (step # tr)) = faq_database s"
    using IH by (simp add: run handle_faq_database)
  have b: "store_invariant s \<longrightarrow> store_invariant (run lib s (step # tr))"
    using IH handle_store_invariant [of s lib env req] by (simp add: run)
  have c: "dom (support_tickets_db (run lib s (step # tr))) =
      dom (support_tickets_db s) \<union> set (submitted_ids (step # tr))"
    using IH d1 by (auto simp: run ids)
  have d: "\<forall>tid d. support_tickets_db s tid = Some d \<and> tid \<notin> set (submitted_ids (step # tr)) \<longrightarrow>
             support_tickets_db (run lib s (step # tr)) tid = Some d"
  proof (intro allI impI)
    fix tid d
    assume h: "support_tickets_db s tid = Some d \<and> tid \<notin> set (submitted_ids (step # tr))"
    then have n: "\<not> (accepted_submission req \<and> uuid4 env = tid)" by (auto simp: ids)
    from h have m: "tid \<notin> set (submitted_ids tr)" by (auto simp: ids split: if_splits)
    from h n have "support_tickets_db ?s1 tid = Some d" by (simp add: handle_keeps)
    with IH m show "support_tickets_db (run lib s (step # tr)) tid = Some d" by (simp add: run)
  qed
  from a b c d show ?case by blast
qed

lemma faq_database_init_keywords: "\<forall>entry\<in>set faq_database_init. keywords (snd entry) \<noteq> []"
  unfolding faq_database_init_def by simp

lemma store_invariant_init: "store_invariant init_state"
  using faq_database_init_keywords by (simp add: store_invariant_def init_state_def)

lemma example_body_valid:
  "validate_TicketInput example_body =
     Inr \<lparr>input_email = ''user@example.com'',
          input_description = ''My order is late and I'm very unhappy!''\<rparr>"
  by (simp add: validate_TicketInput_def example_body_def)

lemma example_body_2_valid:
  "validate_TicketInput example_body_2 =
     Inr \<lparr>input_email = ''other@example.com'', input_description = ''The parcel never arrived.''\<rparr>"
  by (simp add: validate_TicketInput_def example_body_2_def)

lemma neutral_example:
  "get_sentiment flat_polarity text = ''neutral''"
  by (simp add: get_sentiment_def flat_polarity_def float_0_1_def)

lemma example_first_step:
  "support_tickets_db (run example_libraries init_state [(example_draws, PostTicket example_body)]) =
     [''3f2b8c1e-5d4a-4e6f-9a7b-0c1d2e3f4a5b'' \<mapsto>
        \<lparr>ticket_id = ''3f2b8c1e-5d4a-4e6f-9a7b-0c1d2e3f4a5b'', user_email = ''user@example.com'',
         issue_description = ''My order is late and I'm very unhappy!'', status = ''submitted'',
         sentiment = ''neutral'', timestamp = ''2024-05-01T12:00:00.000123Z''\<rparr>]"
  by (simp add: post_support_ticket_def example_body_valid submit_ticket_def Let_def
      example_libraries_def neutral_example example_draws_def init_state_def)

text \<open>
  C8, as stated, fails: the handler stores under the identifier it draws whether or not the
  key exists. In a run of two accepted submissions that draw the same identifier, the
  identifier is inserted twice, and the ticket that the first submission stored under it is
  replaced by the ticket of the second.
\<close>

theorem overwritten_ticket_counterexample:
  "store_invariant init_state \<and>
   support_tickets_db (run example_libraries init_state [(example_draws, PostTicket example_body)])
       ''3f2b8c1e-5d4a-4e6f-9a7b-0c1d2e3f4a5b'' =
     Some \<lparr>ticket_id = ''3f2b8c1e-5d4a-4e6f-9a7b-0c1d2e3f4a5b'', user_email = ''user@example.com'',
           issue_description = ''My order is late and I'm very unhappy!'', status = ''submitted'',
           sentiment = ''neutral'', timestamp = ''2024-05-01T12:00:00.000123Z''\<rparr> \<and>
   support_tickets_db
       (run example_libraries init_state
          ([(example_draws, PostTicket example_body)] @ [(example_draws_3, PostTicket example_body_2)]))
       ''3f2b8c1e-5d4a-4e6f-9a7b-0c1d2e3f4a5b'' =
     Some \<lparr>ticket_id = ''3f2b8c1e-5d4a-4e6f-9a7b-0c1d2e3f4a5b'', user_email = ''other@example.com'',
           issue_description = ''The parcel never arrived.'', status = ''submitted'',
           sentiment = ''neutral'', timestamp = ''2024-05-01T12:00:07.500000Z''\<rparr> \<and>
   submitted_ids ([(example_draws, PostTicket example_body)] @ [(example_draws_3, PostTicket example_body_2)])
     = [''3f2b8c1e-5d4a-4e6f-9a7b-0c1d2e3f4a5b'', ''3f2b8c1e-5d4a-4e6f-9a7b-0c1d2e3f4a5b''] \<and>
   \<not> distinct (submitted_ids
       ([(example_draws, PostTicket example_body)] @ [(example_draws_3, PostTicket example_body_2)]))"
proof -
  have 1: "support_tickets_db (run example_libraries init_state [(example_draws, PostTicket example_body)])
       ''3f2b8c1e-5d4a-4e6f-9a7b-0c1d2e3f4a5b'' =
     Some \<lparr>ticket_id = ''3f2b8c1e-5d4a-4e6f-9a7b-0c1d2e3f4a5b'', user_email = ''user@example.com'',
           issue_description = ''My order is late and I'm very unhappy!'', status = ''submitted'',
           sentiment = ''neutral'', timestamp = ''2024-05-01T12:00:00.000123Z''\<rparr>"
    unfolding example_first_step by simp
  have 2: "support_tickets_db
       (run example_libraries init_state
          ([(example_draws, PostTicket example_body)] @ [(example_draws_3, PostTicket example_body_2)]))
       ''3f2b8c1e-5d4a-4e6f-9a7b-0c1d2e3f4a5b'' =
     Some \<lparr>ticket_id = ''3f2b8c1e-5d4a-4e6f-9a7b-0c1d2e3f4a5b'', user_email = ''other@example.com'',
           issue_description = ''The parcel never arrived.'', status = ''submitted'',
           sentiment = ''neutral'', timestamp = ''2024-05-01T12:00:07.500000Z''\<rparr>"
    by (simp add: post_support_ticket_def example_body_valid example_body_2_valid submit_ticket_def
        Let_def example_libraries_def neutral_example example_draws_def example_draws_3_def
        init_state_def)
  have 3: "submitted_ids
       ([(example_draws, PostTicket example_body)] @ [(example_draws_3, PostTicket example_body_2)])
     = [''3f2b8c1e-5d4a-4e6f-9a7b-0c1d2e3f4a5b'', ''3f2b8c1e-5d4a-4e6f-9a7b-0c1d2e3f4a5b'']"
    by (simp add: submitted_ids_def example_body_valid example_body_2_valid example_draws_def
        example_draws_3_def)
  have 4: "\<not> distinct (submitted_ids
       ([(example_draws, PostTicket example_body)] @ [(example_draws_3, PostTicket example_body_2)]))"
    unfolding 3 by simp
  from store_invariant_init 1 2 3 4 show ?thesis by blast
qed

text \<open>
  C8, amended. From a state that satisfies the store invariants, any sequence of operations
  leaves the FAQ store as it was and keeps the invariants (the declared FAQ entries, each
  with a keyword; each ticket stored under its own identifier); the initial state satisfies
  them. The keys of the ticket store after the run are those before it and the identifiers
  that the accepted submissions drew, so no ticket is ever deleted; and a ticket that is in
  the store at some moment of the run is still there unchanged at its end unless a later
  accepted submission draws its identifier. When the identifiers drawn differ from each
  other and from the keys at the start, so that each is inserted once, a ticket once stored
  is never changed.
\<close>

theorem store_invariants_preserved:
  assumes inv: "store_invariant s"
  shows "store_invariant init_state \<and>
         faq_database (run lib s tr) = faq_database s \<and>
         store_invariant (run lib s tr) \<and>
         dom (support_tickets_db (run lib s tr))
           = dom (support_tickets_db s) \<union> set (submitted_ids tr) \<and>
         (\<forall>tr1 tr2 tid. tr = tr1 @ tr2 \<and> tid \<in> dom (support_tickets_db (run lib s tr1)) \<longrightarrow>
            tid \<in> dom (support_tickets_db (run lib s tr))) \<and>
         (\<forall>tr1 tr2 tid d.
            tr = tr1 @ tr2 \<and> support_tickets_db (run lib s tr1) tid = Some d \<and>
            tid \<notin> set (submitted_ids tr2) \<longrightarrow>
            support_tickets_db (run lib s tr) tid = Some d) \<and>
         (fresh_identifiers s tr \<longrightarrow>
            (\<forall>tr1 tr2 tid d.
               tr = tr1 @ tr2 \<and> support_tickets_db (run lib s tr1) tid = Some d \<longrightarrow>
               support_tickets_db (run lib s tr) tid = Some d))"
proof -
  have a: "faq_database (run lib s tr) = faq_database s"
    using run_properties [of lib s tr] by blast
  have b: "store_invariant (run lib s tr)"
    using run_properties [of lib s tr] inv by blast
  have c: "dom (support_tickets_db (run lib s tr))
           = dom (support_tickets_db s) \<union> set (submitted_ids tr)"
    using run_properties [of lib s tr] by blast
  have e: "\<forall>tr1 tr2 tid d.
            tr = tr1 @ tr2 \<and> support_tickets_db (run lib s tr1) tid = Some d \<and>
            tid \<notin> set (submitted_ids tr2) \<longrightarrow>
            support_tickets_db (run lib s tr) tid = Some d"
  proof (intro allI impI)
    fix tr1 tr2 tid d
    assume h: "tr = tr1 @ tr2 \<and> support_tickets_db (run lib s tr1) tid = Some d \<and>
            tid \<notin> set (submitted_ids tr2)"
    with run_properties [of lib "run lib s tr1" tr2]
    have "support_tickets_db (run lib (run lib s tr1) tr2) tid = Some d" by blast
    with h show "support_tickets_db (run lib s tr) tid = Some d" by (simp add: run_append)
  qed
  have d: "\<forall>tr1 tr2 tid. tr = tr1 @ tr2 \<and> tid \<in> dom (support_tickets_db (run lib s tr1)) \<longrightarrow>
            tid \<in> dom (support_tickets_db (run lib s tr))"
  proof (intro allI impI)
    fix tr1 tr2 tid
    assume h: "tr = tr1 @ tr2 \<and> tid \<in> dom (support_tickets_db (run lib s tr1))"
    have "dom (support_tickets_db (run lib (run lib s tr1) tr2)) =
        dom (support_tickets_db (run lib s tr1)) \<union> set (submitted_ids tr2)"
      using run_properties [of lib "run lib s tr1" tr2] by blast
    with h show "tid \<in> dom (support_tickets_db (run lib s tr))" by (simp add: run_append)
  qed
  have f: "fresh_identifiers s tr \<longrightarrow>
            (\<forall>tr1 tr2 tid d.
               tr = tr1 @ tr2 \<and> support_tickets_db (run lib s tr1) tid = Some d \<longrightarrow>
               support_tickets_db (run lib s tr) tid = Some d)"
  proof (intro allI impI)
    fix tr1 tr2 tid d
    assume fr: "fresh_identifiers s tr"
      and h: "tr = tr1 @ tr2 \<and> support_tickets_db (run lib s tr1) tid = Some d"
    have "dom (support_tickets_db (run lib s tr1)) =
        dom (support_tickets_db s) \<union> set (submitted_ids tr1)"
      using run_properties [of lib s tr1] by blast
    with h have m: "tid \<in> dom (support_tickets_db s) \<union> set (submitted_ids tr1)" by auto
    from fr h have "distinct (submitted_ids tr1 @ submitted_ids tr2)"
      and "set (submitted_ids tr1 @ submitted_ids tr2) \<inter> dom (support_tickets_db s) = {}"
      by (simp_all add: fresh_identifiers_def submitted_ids_append)
    with m have "tid \<notin> set (submitted_ids tr2)" by auto
    with e h show "support_tickets_db (run lib s tr) tid = Some d" by blast
  qed
  from store_invariant_init a b c d e f show ?thesis by blast
qed

lemma example_run_split:
  "example_run = [(example_draws, PostTicket example_body)] @
     [(example_draws, GetTicket ''no-such-ticket''),
      (example_draws, PostFaq (Some ''I forgot my password'')),
      (example_draws, PostAction (Some (cps ''Track my order ORD12345''))),
      (example_draws_2, PostTicket example_body)]"
  by (simp add: example_run_def)

lemma example_run_ids:
  "submitted_ids example_run =
     [''3f2b8c1e-5d4a-4e6f-9a7b-0c1d2e3f4a5b'', ''9c0e7a52-1b3d-4f68-8e2a-6d5c4b3a2f1e'']"
  by (simp add: submitted_ids_def example_run_def example_body_valid example_draws_def
      example_draws_2_def)

lemma example_run_fresh: "fresh_identifiers init_state example_run"
  by (simp add: fresh_identifiers_def example_run_ids init_state_def)

theorem store_invariants_preserved_witness:
  "store_invariant init_state \<and>
   fresh_identifiers init_state example_run \<and>
   store_invariant (run example_libraries init_state example_run) \<and>
   faq_database (run example_libraries init_state example_run) = faq_database_init \<and>
   dom (support_tickets_db (run example_libraries init_state example_run)) =
     {''3f2b8c1e-5d4a-4e6f-9a7b-0c1d2e3f4a5b'', ''9c0e7a52-1b3d-4f68-8e2a-6d5c4b3a2f1e''} \<and>
   support_tickets_db (run example_libraries init_state [(example_draws, PostTicket example_body)])
       ''3f2b8c1e-5d4a-4e6f-9a7b-0c1d2e3f4a5b'' =
     Some \<lparr>ticket_id = ''3f2b8c1e-5d4a-4e6f-9a7b-0c1d2e3f4a5b'', user_email = ''user@example.com'',
           issue_description = ''My order is late and I'm very unhappy!'', status = ''submitted'',
           sentiment = ''neutral'', timestamp = ''2024-05-01T12:00:00.000123Z''\<rparr> \<and>
   support_tickets_db (run example_libraries init_state example_run)
       ''3f2b8c1e-5d4a-4e6f-9a7b-0c1d2e3f4a5b'' =
     Some \<lparr>ticket_id = ''3f2b8c1e-5d4a-4e6f-9a7b-0c1d2e3f4a5b'', user_email = ''user@example.com'',
           issue_description = ''My order is late and I'm very unhappy!'', status = ''submitted'',
           sentiment = ''neutral'', timestamp = ''2024-05-01T12:00:00.000123Z''\<rparr>"
proof -
  let ?d = "\<lparr>ticket_id = ''3f2b8c1e-5d4a-4e6f-9a7b-0c1d2e3f4a5b'', user_email = ''user@example.com'',
           issue_description = ''My order is late and I'm very unhappy!'', status = ''submitted'',
           sentiment = ''neutral'', timestamp = ''2024-05-01T12:00:00.000123Z''\<rparr>"
  note t = store_invariants_preserved [OF store_invariant_init, of example_libraries example_run]
  have f: "faq_database (run example_libraries init_state example_run) = faq_database_init"
    using t by (simp add: init_state_def)
  have d: "dom (support_tickets_db (run example_libraries init_state example_run)) =
     {''3f2b8c1e-5d4a-4e6f-9a7b-0c1d2e3f4a5b'', ''9c0e7a52-1b3d-4f68-8e2a-6d5c4b3a2f1e''}"
    using t by (simp add: example_run_ids init_state_def)
  have 1: "support_tickets_db
      (run example_libraries init_state [(example_draws, PostTicket example_body)])
      ''3f2b8c1e-5d4a-4e6f-9a7b-0c1d2e3f4a5b'' = Some ?d"
    unfolding example_first_step by simp
  from t example_run_fresh
  have k: "\<forall>tr1 tr2 tid d.
      example_run = tr1 @ tr2 \<and>
      support_tickets_db (run example_libraries init_state tr1) tid = Some d \<longrightarrow>
      support_tickets_db (run example_libraries init_state example_run) tid = Some d"
    by blast
  from k example_run_split 1
  have 2: "support_tickets_db (run example_libraries init_state example_run)
      ''3f2b8c1e-5d4a-4e6f-9a7b-0c1d2e3f4a5b'' = Some ?d"
    by blast
  from store_invariant_init example_run_fresh t f d 1 2 show ?thesis by blast
qed

subsection \<open>Two submissions of the same input\<close>

text \<open>
  C9, as stated, fails in each of its parts. Two submissions of the same body that draw
  different identifiers and read the same clock value return the same timestamp. Two
  submissions of the same body that draw the same identifier return the same identifier,
  and after the second the lookup of that identifier returns the second response, not the
  first.
\<close>

theorem identical_submissions_counterexample:
  "fst (post_support_ticket flat_polarity example_draws init_state example_body) =
     Inr \<lparr>resp_ticket_id = ''3f2b8c1e-5d4a-4e6f-9a7b-0c1d2e3f4a5b'',
          resp_user_email = ''user@example.com'',
          resp_issue_description = ''My order is late and I'm very unhappy!'',
          resp_status = ''submitted'', resp_sentiment = ''neutral'',
          resp_timestamp = ''2024-05-01T12:00:00.000123Z''\<rparr> \<and>
   fst (post_support_ticket flat_polarity example_draws_2
          (snd (post_support_ticket flat_polarity example_draws init_state example_body))
          example_body) =
     Inr \<lparr>resp_ticket_id = ''9c0e7a52-1b3d-4f68-8e2a-6d5c4b3a2f1e'',
          resp_user_email = ''user@example.com'',
          resp_issue_description = ''My order is late and I'm very unhappy!'',
          resp_status = ''submitted'', resp_sentiment = ''neutral'',
          resp_timestamp = ''2024-05-01T12:00:00.000123Z''\<rparr> \<and>
   fst (post_support_ticket flat_polarity example_draws_3
          (snd (post_support_ticket flat_polarity example_draws init_state example_body))
          example_body) =
     Inr \<lparr>resp_ticket_id = ''3f2b8c1e-5d4a-4e6f-9a7b-0c1d2e3f4a5b'',
          resp_user_email = ''user@example.com'',
          resp_issue_description = ''My order is late and I'm very unhappy!'',
          resp_status = ''submitted'', resp_sentiment = ''neutral'',
          resp_timestamp = ''2024-05-01T12:00:07.500000Z''\<rparr> \<and>
   fst (get_ticket_status
          (snd (post_support_ticket flat_polarity example_draws_3
                  (snd (post_support_ticket flat_polarity example_draws init_state example_body))
                  example_body))
          ''3f2b8c1e-5d4a-4e6f-9a7b-0c1d2e3f4a5b'') =
     Inr \<lparr>resp_ticket_id = ''3f2b8c1e-5d4a-4e6f-9a7b-0c1d2e3f4a5b'',
          resp_user_email = ''user@example.com'',
          resp_issue_description = ''My order is late and I'm very unhappy!'',
          resp_status = ''submitted'', resp_sentiment = ''neutral'',
          resp_timestamp = ''2024-05-01T12:00:07.500000Z''\<rparr>"
  by (simp add: post_support_ticket_def example_body_valid submit_ticket_def Let_def
      TicketResponse_of_def neutral_example get_ticket_status_def
      example_draws_def example_draws_2_def example_draws_3_def)

text \<open>
  C9, amended. Two successive accepted submissions of the same body return the identifiers
  and the clock readings that the two calls drew, the readings followed by Z: the two
  identifiers differ exactly when the drawn identifiers differ, and the two timestamps
  exactly when the readings differ. After the second call the second ticket is retrieved by
  its identifier as the second response; the first is retrieved by its identifier as the
  first response when the two identifiers differ, and as the second response when they are
  the same.
\<close>

theorem two_submissions_same_input:
  assumes email: "body_user_email body = Some email"
    and descr: "body_issue_description body = Some description"
    and len: "10 \<le> length description"
  shows "\<exists>r1 s1 r2 s2.
           post_support_ticket polarity env1 s body = (Inr r1, s1) \<and>
           post_support_ticket polarity env2 s1 body = (Inr r2, s2) \<and>
           resp_ticket_id r1 = uuid4 env1 \<and> resp_ticket_id r2 = uuid4 env2 \<and>
           (resp_ticket_id r1 \<noteq> resp_ticket_id r2 \<longleftrightarrow> uuid4 env1 \<noteq> uuid4 env2) \<and>
           resp_timestamp r1 = utcnow_isoformat env1 @ ''Z'' \<and>
           resp_timestamp r2 = utcnow_isoformat env2 @ ''Z'' \<and>
           (resp_timestamp r1 \<noteq> resp_timestamp r2 \<longleftrightarrow>
              utcnow_isoformat env1 \<noteq> utcnow_isoformat env2) \<and>
           fst (get_ticket_status s2 (resp_ticket_id r2)) = Inr r2 \<and>
           (uuid4 env1 \<noteq> uuid4 env2 \<longrightarrow>
              fst (get_ticket_status s2 (resp_ticket_id r1)) = Inr r1) \<and>
           (uuid4 env1 = uuid4 env2 \<longrightarrow>
              fst (get_ticket_status s2 (resp_ticket_id r1)) = Inr r2)"
proof -
  have v: "validate_TicketInput body = Inr \<lparr>input_email = email, input_description = description\<rparr>"
    using email descr len by (simp add: validate_TicketInput_def)
  show ?thesis
    by (simp add: post_support_ticket_def v submit_ticket_def get_ticket_status_def
        TicketResponse_of_def Let_def)
qed

theorem two_submissions_same_input_witness:
  "body_user_email example_body = Some ''user@example.com'' \<and>
   body_issue_description example_body = Some ''My order is late and I'm very unhappy!'' \<and>
   10 \<le> length ''My order is late and I'm very unhappy!'' \<and>
   uuid4 example_draws \<noteq> uuid4 example_draws_2 \<and>
   (\<exists>r1 s1 r2 s2.
      post_support_ticket flat_polarity example_draws init_state example_body = (Inr r1, s1) \<and>
      post_support_ticket flat_polarity example_draws_2 s1 example_body = (Inr r2, s2) \<and>
      resp_ticket_id r1 = ''3f2b8c1e-5d4a-4e6f-9a7b-0c1d2e3f4a5b'' \<and>
      resp_ticket_id r2 = ''9c0e7a52-1b3d-4f68-8e2a-6d5c4b3a2f1e'' \<and>
      fst (get_ticket_status s2 (resp_ticket_id r1)) = Inr r1 \<and>
      fst (get_ticket_status s2 (resp_ticket_id r2)) = Inr r2)"
proof -
  have e: "body_user_email example_body = Some ''user@example.com''"
    by (simp add: example_body_def)
  have d: "body_issue_description example_body = Some ''My order is late and I'm very unhappy!''"
    by (simp add: example_body_def)
  have l: "10 \<le> length ''My order is late and I'm very unhappy!''" by simp
  have u: "uuid4 example_draws \<noteq> uuid4 example_draws_2"
    by (simp add: example_draws_def example_draws_2_def)
  from two_submissions_same_input [OF e d l, of flat_polarity example_draws init_state example_draws_2]
  obtain r1 s1 r2 s2 where h:
    "post_support_ticket flat_polarity example_draws init_state example_body = (Inr r1, s1)"
    "post_support_ticket flat_polarity example_draws_2 s1 example_body = (Inr r2, s2)"
    "resp_ticket_id r1 = uuid4 example_draws" "resp_ticket_id r2 = uuid4 example_draws_2"
    "fst (get_ticket_status s2 (resp_ticket_id r2)) = Inr r2"
    "uuid4 example_draws \<noteq> uuid4 example_draws_2 \<longrightarrow>
       fst (get_ticket_status s2 (resp_ticket_id r1)) = Inr r1"
    by blast
  from h(3) have i1: "resp_ticket_id r1 = ''3f2b8c1e-5d4a-4e6f-9a7b-0c1d2e3f4a5b''"
    by (simp add: example_draws_def)
  from h(4) have i2: "resp_ticket_id r2 = ''9c0e7a52-1b3d-4f68-8e2a-6d5c4b3a2f1e''"
    by (simp add: example_draws_2_def)
  from h(6) u have g: "fst (get_ticket_status s2 (resp_ticket_id r1)) = Inr r1" by blast
  from h(1,2) i1 i2 g h(5)
  have "\<exists>r1 s1 r2 s2.
      post_support_ticket flat_polarity example_draws init_state example_body = (Inr r1, s1) \<and>
      post_support_ticket flat_polarity example_draws_2 s1 example_body = (Inr r2, s2) \<and>
      resp_ticket_id r1 = ''3f2b8c1e-5d4a-4e6f-9a7b-0c1d2e3f4a5b'' \<and>
      resp_ticket_id r2 = ''9c0e7a52-1b3d-4f68-8e2a-6d5c4b3a2f1e'' \<and>
      fst (get_ticket_status s2 (resp_ticket_id r1)) = Inr r1 \<and>
      fst (get_ticket_status s2 (resp_ticket_id r2)) = Inr r2"
    by blast
  with e d l u show ?thesis by blast
qed

subsection \<open>The track-order pattern\<close>

lemma order_id_char_not_space: "order_id_char c \<Longrightarrow> \<not> is_space c"
  by (auto simp: order_id_char_def ascii_alnum_def is_space_def)

lemma ascii_alnum_order_id_char: "ascii_alnum c \<Longrightarrow> order_id_char c"
  by (simp add: order_id_char_def)

lemma cps_append: "cps (xs @ ys) = cps xs @ cps ys"
  by (simp add: cps_def)

lemma match_literal_ci_iff:
  "match_literal_ci lit s = Some r \<longleftrightarrow> (\<exists>p. s = p @ r \<and> list_all2 literal_ignorecase lit p)"
proof (induction lit s rule: match_literal_ci.induct)
  case (1 s)
  then show ?case by auto
next
  case (2 l ls)
  then show ?case by (auto simp: list_all2_Cons1)
next
  case (3 l ls c cs)
  show ?case
  proof (cases "literal_ignorecase l c")
    case True
    have "(\<exists>p. c # cs = p @ r \<and> list_all2 literal_ignorecase (l # ls) p) \<longleftrightarrow>
          (\<exists>p'. cs = p' @ r \<and> list_all2 literal_ignorecase ls p')"
    proof
      assume "\<exists>p. c # cs = p @ r \<and> list_all2 literal_ignorecase (l # ls) p"
      then obtain p where p: "c # cs = p @ r" "list_all2 literal_ignorecase (l # ls) p" by blast
      from p(2) obtain x p' where pp: "p = x # p'" "list_all2 literal_ignorecase ls p'"
        by (auto simp: list_all2_Cons1)
      with p have "cs = p' @ r \<and> list_all2 literal_ignorecase ls p'" by simp
      then show "\<exists>p'. cs = p' @ r \<and> list_all2 literal_ignorecase ls p'" by blast
    next
      assume "\<exists>p'. cs = p' @ r \<and> list_all2 literal_ignorecase ls p'"
      then obtain p' where "cs = p' @ r" "list_all2 literal_ignorecase ls p'" by blast
      with True have "c # cs = (c # p') @ r \<and> list_all2 literal_ignorecase (l # ls) (c # p')"
        by simp
      then show "\<exists>p. c # cs = p @ r \<and> list_all2 literal_ignorecase (l # ls) p" by blast
    qed
    with True 3 show ?thesis by simp
  next
    case False
    have "\<not> (\<exists>p. c # cs = p @ r \<and> list_all2 literal_ignorecase (l # ls) p)"
    proof
      assume "\<exists>p. c # cs = p @ r \<and> list_all2 literal_ignorecase (l # ls) p"
      then obtain p where p: "c # cs = p @ r" "list_all2 literal_ignorecase (l # ls) p" by blast
      from p(2) obtain x p' where pp: "p = x # p'" "literal_ignorecase l x"
        by (auto simp: list_all2_Cons1)
      with p have "literal_ignorecase l c" by simp
      with False show False by simp
    qed
    with False show ?thesis by simp
  qed
qed

lemma takeWhile_run:
  assumes "\<forall>c\<in>set tok. P c" "rest = [] \<or> \<not> P (hd rest)"
  shows "takeWhile P (tok @ rest) = tok"
proof -
  have "takeWhile P rest = []" using assms(2) by (cases rest) auto
  then show ?thesis using assms(1) by (simp add: takeWhile_append2)
qed

lemma dropWhile_spaces:
  assumes "\<forall>c\<in>set ws. is_space c" "tok \<noteq> []" "\<forall>c\<in>set tok. order_id_char c"
  shows "dropWhile is_space (ws @ tok @ rest) = tok @ rest"
proof -
  from assms(2) obtain x xs where t: "tok = x # xs" by (cases tok) auto
  with assms(3) have "\<not> is_space x" by (simp add: order_id_char_not_space)
  then have "dropWhile is_space (tok @ rest) = tok @ rest" by (simp add: t)
  then show ?thesis using assms(1) by (simp add: dropWhile_append2)
qed

lemma match_track_tail_iff:
  "match_track_tail verb s = Some tok \<longleftrightarrow> tail_spec (verb @ cps '' my order'') s tok"
proof
  assume m: "match_track_tail verb s = Some tok"
  then obtain r where r: "match_literal_ci (verb @ cps '' my order'') s = Some r"
    by (cases "match_literal_ci (verb @ cps '' my order'') s") (simp_all add: match_track_tail_def)
  with m have tok: "tok = takeWhile order_id_char (dropWhile is_space r)" "tok \<noteq> []"
    by (auto simp: match_track_tail_def Let_def split: if_splits)
  from r obtain p where p: "s = p @ r" "list_all2 literal_ignorecase (verb @ cps '' my order'') p"
    unfolding match_literal_ci_iff by blast
  define ws where "ws = takeWhile is_space r"
  define rest where "rest = dropWhile order_id_char (dropWhile is_space r)"
  have "r = ws @ tok @ rest"
    by (simp add: ws_def tok(1) rest_def)
  moreover have "\<forall>c\<in>set ws. is_space c" by (auto simp: ws_def dest: set_takeWhileD)
  moreover have "\<forall>c\<in>set tok. order_id_char c" by (auto simp: tok(1) dest: set_takeWhileD)
  moreover have "rest = [] \<or> \<not> order_id_char (hd rest)"
    unfolding rest_def by (metis hd_dropWhile)
  ultimately show "tail_spec (verb @ cps '' my order'') s tok"
    unfolding tail_spec_def using p tok(2) by blast
next
  assume "tail_spec (verb @ cps '' my order'') s tok"
  then obtain ph ws rest where h: "s = ph @ ws @ tok @ rest"
    "list_all2 literal_ignorecase (verb @ cps '' my order'') ph" "\<forall>c\<in>set ws. is_space c" "tok \<noteq> []"
    "\<forall>c\<in>set tok. order_id_char c" "rest = [] \<or> \<not> order_id_char (hd rest)"
    unfolding tail_spec_def by blast
  have "match_literal_ci (verb @ cps '' my order'') s = Some (ws @ tok @ rest)"
    unfolding match_literal_ci_iff using h(1,2) by blast
  moreover have "takeWhile order_id_char (dropWhile is_space (ws @ tok @ rest)) = tok"
    using dropWhile_spaces [OF h(3,4,5)] takeWhile_run [OF h(5,6)] by simp
  ultimately show "match_track_tail verb s = Some tok"
    using h(4) by (simp add: match_track_tail_def)
qed

lemma tail_spec_first:
  assumes "tail_spec (l # ls) s tok"
  shows "\<exists>c cs. s = c # cs \<and> literal_ignorecase l c"
proof -
  from assms obtain ph ws rest where h: "s = ph @ ws @ tok @ rest"
    "list_all2 literal_ignorecase (l # ls) ph"
    unfolding tail_spec_def by blast
  from h(2) obtain x xs where "ph = x # xs" "literal_ignorecase l x"
    by (auto simp: list_all2_Cons1)
  with h(1) show ?thesis by simp
qed

lemma track_phrase_heads:
  "cps ''track my order'' = 116 # cps ''rack my order''"
  "cps ''status of my order'' = 115 # cps ''tatus of my order''"
  "cps ''where is my order'' = 119 # cps ''here is my order''"
  by (simp_all add: cps_def)

lemma track_first_letters:
  "literal_ignorecase 116 c \<Longrightarrow> \<not> literal_ignorecase 115 c"
  "literal_ignorecase 116 c \<Longrightarrow> \<not> literal_ignorecase 119 c"
  "literal_ignorecase 115 c \<Longrightarrow> \<not> literal_ignorecase 119 c"
  by (auto simp: literal_ignorecase_def)

lemma order_token_at_tail_spec:
  "order_token_at s tok \<longleftrightarrow>
     tail_spec (cps ''track my order'') s tok \<or> tail_spec (cps ''status of my order'') s tok \<or>
     tail_spec (cps ''where is my order'') s tok"
  unfolding order_token_at_def tail_spec_def track_phrases_def
  by (simp only: set_simps bex_simps insert_iff empty_iff Bex_def) blast

lemma tail_spec_exclusive:
  "tail_spec (cps ''track my order'') s tok \<Longrightarrow> \<not> tail_spec (cps ''status of my order'') s tok'"
  "tail_spec (cps ''track my order'') s tok \<Longrightarrow> \<not> tail_spec (cps ''where is my order'') s tok'"
  "tail_spec (cps ''status of my order'') s tok \<Longrightarrow> \<not> tail_spec (cps ''where is my order'') s tok'"
  unfolding track_phrase_heads using track_first_letters by (auto dest!: tail_spec_first)

lemma track_tail_literals:
  "match_track_tail (cps ''track'') s = Some tok \<longleftrightarrow> tail_spec (cps ''track my order'') s tok"
  "match_track_tail (cps ''status of'') s = Some tok \<longleftrightarrow> tail_spec (cps ''status of my order'') s tok"
  "match_track_tail (cps ''where is'') s = Some tok \<longleftrightarrow> tail_spec (cps ''where is my order'') s tok"
  using match_track_tail_iff [of "cps ''track''" s tok]
    match_track_tail_iff [of "cps ''status of''" s tok]
    match_track_tail_iff [of "cps ''where is''" s tok]
  by (simp_all add: cps_append [symmetric])

lemma track_order_match_at_iff: "track_order_match_at s = Some tok \<longleftrightarrow> order_token_at s tok"
proof
  assume "track_order_match_at s = Some tok"
  then have "match_track_tail (cps ''track'') s = Some tok \<or>
      match_track_tail (cps ''status of'') s = Some tok \<or>
      match_track_tail (cps ''where is'') s = Some tok"
    by (auto simp: track_order_match_at_def split: option.splits)
  then show "order_token_at s tok"
    unfolding track_tail_literals order_token_at_tail_spec .
next
  assume "order_token_at s tok"
  then consider (a) "tail_spec (cps ''track my order'') s tok"
    | (b) "tail_spec (cps ''status of my order'') s tok"
    | (c) "tail_spec (cps ''where is my order'') s tok"
    unfolding order_token_at_tail_spec by blast
  then show "track_order_match_at s = Some tok"
  proof cases
    case a
    then have "match_track_tail (cps ''track'') s = Some tok" by (simp add: track_tail_literals)
    then show ?thesis by (simp add: track_order_match_at_def)
  next
    case b
    have "match_track_tail (cps ''track'') s = None"
    proof (cases "match_track_tail (cps ''track'') s")
      case (Some t)
      then have "tail_spec (cps ''track my order'') s t" by (simp add: track_tail_literals)
      with b tail_spec_exclusive(1) show ?thesis by blast
    qed simp
    moreover have "match_track_tail (cps ''status of'') s = Some tok"
      using b by (simp add: track_tail_literals)
    ultimately show ?thesis by (simp add: track_order_match_at_def)
  next
    case c
    have "match_track_tail (cps ''track'') s = None"
    proof (cases "match_track_tail (cps ''track'') s")
      case (Some t)
      then have "tail_spec (cps ''track my order'') s t" by (simp add: track_tail_literals)
      with c tail_spec_exclusive(2) show ?thesis by blast
    qed simp
    moreover have "match_track_tail (cps ''status of'') s = None"
    proof (cases "match_track_tail (cps ''status of'') s")
      case (Some t)
      then have "tail_spec (cps ''status of my order'') s t" by (simp add: track_tail_literals)
      with c tail_spec_exclusive(3) show ?thesis by blast
    qed simp
    moreover have "match_track_tail (cps ''where is'') s = Some tok"
      using c by (simp add: track_tail_literals)
    ultimately show ?thesis by (simp add: track_order_match_at_def)
  qed
qed

lemma track_order_match_at_None:
  "track_order_match_at s = None \<longleftrightarrow> (\<forall>t. \<not> order_token_at s t)"
  using track_order_match_at_iff [of s] by (cases "track_order_match_at s") auto

lemma order_token_at_unique: "order_token_at s t \<Longrightarrow> order_token_at s t' \<Longrightarrow> t = t'"
  using track_order_match_at_iff by (metis option.inject)

text \<open>\<open>re.search\<close>: the match at the leftmost start position.\<close>

lemma track_order_search_Some:
  "track_order_search q = Some tok \<longleftrightarrow>
     (\<exists>i\<le>length q. order_token_at (drop i q) tok \<and> (\<forall>k<i. \<forall>t. \<not> order_token_at (drop k q) t))"
proof (induction q)
  case Nil
  then show ?case by (simp add: track_order_match_at_iff)
next
  case (Cons c cs)
  show ?case
  proof (cases "track_order_match_at (c # cs)")
    case (Some t)
    then have t: "order_token_at (c # cs) t" by (simp add: track_order_match_at_iff)
    have "(\<exists>i\<le>length (c # cs). order_token_at (drop i (c # cs)) tok \<and>
            (\<forall>k<i. \<forall>t. \<not> order_token_at (drop k (c # cs)) t)) \<longleftrightarrow> t = tok"
    proof
      assume "\<exists>i\<le>length (c # cs). order_token_at (drop i (c # cs)) tok \<and>
            (\<forall>k<i. \<forall>t. \<not> order_token_at (drop k (c # cs)) t)"
      then obtain i where i: "order_token_at (drop i (c # cs)) tok"
        "\<forall>k<i. \<forall>t. \<not> order_token_at (drop k (c # cs)) t" by blast
      have "i = 0"
      proof (rule ccontr)
        assume "i \<noteq> 0"
        then have "\<not> order_token_at (drop 0 (c # cs)) t" using i(2) by blast
        with t show False by simp
      qed
      with i(1) t show "t = tok" by (simp add: order_token_at_unique)
    next
      assume "t = tok"
      with t have "0 \<le> length (c # cs) \<and> order_token_at (drop 0 (c # cs)) tok \<and>
            (\<forall>k<0. \<forall>t. \<not> order_token_at (drop k (c # cs)) t)" by simp
      then show "\<exists>i\<le>length (c # cs). order_token_at (drop i (c # cs)) tok \<and>
            (\<forall>k<i. \<forall>t. \<not> order_token_at (drop k (c # cs)) t)" by blast
    qed
    with Some show ?thesis by simp
  next
    case None
    then have n: "\<forall>t. \<not> order_token_at (c # cs) t" by (simp add: track_order_match_at_None)
    have "(\<exists>i\<le>length (c # cs). order_token_at (drop i (c # cs)) tok \<and>
            (\<forall>k<i. \<forall>t. \<not> order_token_at (drop k (c # cs)) t)) \<longleftrightarrow>
          (\<exists>i\<le>length cs. order_token_at (drop i cs) tok \<and>
            (\<forall>k<i. \<forall>t. \<not> order_token_at (drop k cs) t))"
    proof
      assume "\<exists>i\<le>length (c # cs). order_token_at (drop i (c # cs)) tok \<and>
            (\<forall>k<i. \<forall>t. \<not> order_token_at (drop k (c # cs)) t)"
      then obtain i where i: "i \<le> length (c # cs)" "order_token_at (drop i (c # cs)) tok"
        "\<forall>k<i. \<forall>t. \<not> order_token_at (drop k (c # cs)) t" by blast
      from i(2) n obtain j where j: "i = Suc j" by (cases i) auto
      have "\<forall>k<j. \<forall>t. \<not> order_token_at (drop k cs) t"
      proof (intro allI impI)
        fix k t assume "k < j"
        then have "Suc k < i" using j by simp
        with i(3) have "\<not> order_token_at (drop (Suc k) (c # cs)) t" by blast
        then show "\<not> order_token_at (drop k cs) t" by simp
      qed
      with i(1,2) j have "j \<le> length cs \<and> order_token_at (drop j cs) tok \<and>
          (\<forall>k<j. \<forall>t. \<not> order_token_at (drop k cs) t)" by simp
      then show "\<exists>i\<le>length cs. order_token_at (drop i cs) tok \<and>
            (\<forall>k<i. \<forall>t. \<not> order_token_at (drop k cs) t)" by blast
    next
      assume "\<exists>i\<le>length cs. order_token_at (drop i cs) tok \<and>
            (\<forall>k<i. \<forall>t. \<not> order_token_at (drop k cs) t)"
      then obtain j where j: "j \<le> length cs" "order_token_at (drop j cs) tok"
        "\<forall>k<j. \<forall>t. \<not> order_token_at (drop k cs) t" by blast
      have "\<forall>k<Suc j. \<forall>t. \<not> order_token_at (drop k (c # cs)) t"
      proof (intro allI impI)
        fix k t assume k: "k < Suc j"
        show "\<not> order_token_at (drop k (c # cs)) t"
        proof (cases k)
          case 0
          with n show ?thesis by simp
        next
          case (Suc k')
          with k j(3) show ?thesis by simp
        qed
      qed
      with j(1,2) have "Suc j \<le> length (c # cs) \<and> order_token_at (drop (Suc j) (c # cs)) tok \<and>
          (\<forall>k<Suc j. \<forall>t. \<not> order_token_at (drop k (c # cs)) t)" by simp
      then show "\<exists>i\<le>length (c # cs). order_token_at (drop i (c # cs)) tok \<and>
            (\<forall>k<i. \<forall>t. \<not> order_token_at (drop k (c # cs)) t)" by blast
    qed
    with None Cons.IH show ?thesis by simp
  qed
qed

lemma track_order_search_None: "track_order_search q = None \<longleftrightarrow> \<not> track_order_occurs q"
proof (induction q)
  case Nil
  then show ?case by (simp add: track_order_occurs_def track_order_match_at_None)
next
  case (Cons c cs)
  have occ: "track_order_occurs (c # cs) \<longleftrightarrow> (\<exists>t. order_token_at (c # cs) t) \<or> track_order_occurs cs"
  proof
    assume "track_order_occurs (c # cs)"
    then obtain i t where i: "i \<le> length (c # cs)" "order_token_at (drop i (c # cs)) t"
      unfolding track_order_occurs_def by blast
    show "(\<exists>t. order_token_at (c # cs) t) \<or> track_order_occurs cs"
    proof (cases i)
      case 0
      with i show ?thesis by auto
    next
      case (Suc j)
      with i have "j \<le> length cs \<and> order_token_at (drop j cs) t" by simp
      then show ?thesis unfolding track_order_occurs_def by blast
    qed
  next
    assume "(\<exists>t. order_token_at (c # cs) t) \<or> track_order_occurs cs"
    then show "track_order_occurs (c # cs)"
    proof
      assume "\<exists>t. order_token_at (c # cs) t"
      then obtain t where "0 \<le> length (c # cs) \<and> order_token_at (drop 0 (c # cs)) t" by auto
      then show ?thesis unfolding track_order_occurs_def by blast
    next
      assume "track_order_occurs cs"
      then obtain j t where "j \<le> length cs" "order_token_at (drop j cs) t"
        unfolding track_order_occurs_def by blast
      then have "Suc j \<le> length (c # cs) \<and> order_token_at (drop (Suc j) (c # cs)) t" by simp
      then show ?thesis unfolding track_order_occurs_def by blast
    qed
  qed
  show ?case
  proof (cases "track_order_match_at (c # cs)")
    case None
    then have "\<forall>t. \<not> order_token_at (c # cs) t" by (simp add: track_order_match_at_None)
    with None Cons.IH occ show ?thesis by simp
  next
    case (Some t)
    then have "order_token_at (c # cs) t" by (simp add: track_order_match_at_iff)
    with Some occ show ?thesis by auto
  qed
qed

subsection \<open>The greeting pattern\<close>

lemma match_literal_iff: "match_literal w s = Some r \<longleftrightarrow> s = w @ r"
  by (induction w s rule: match_literal.induct) auto

lemma greeting_words_letters:
  "\<forall>w\<in>set greeting_words. w \<noteq> [] \<and> is_word_char tables (hd w) \<and> is_word_char tables (last w)"
  by (simp add: greeting_words_def cps_def is_word_char_def alnum_latin1_def ascii_alnum_def)

lemma head_opt_append: "w \<noteq> [] \<Longrightarrow> head_opt (w @ r) = Some (hd w)"
  by (cases w) simp_all

lemma not_word_head_opt: "\<not> is_word_opt tables (head_opt suf) \<longleftrightarrow> suf = [] \<or> \<not> is_word_char tables (hd suf)"
  by (cases suf) simp_all

lemma greeting_match_at_iff:
  "greeting_match_at tables before s \<longleftrightarrow>
     (\<exists>w suf. s = w @ suf \<and> w \<in> set greeting_words \<and> \<not> is_word_opt tables before \<and>
        (suf = [] \<or> \<not> is_word_char tables (hd suf)))"
proof
  assume "greeting_match_at tables before s"
  then obtain w where b: "word_boundary tables before (head_opt s)" and w: "w \<in> set greeting_words"
    and m: "case match_literal w s of None \<Rightarrow> False
            | Some r \<Rightarrow> word_boundary tables (Some (last w)) (head_opt r)"
    unfolding greeting_match_at_def list_ex_iff by blast
  from m obtain r where r: "match_literal w s = Some r"
    "word_boundary tables (Some (last w)) (head_opt r)"
    by (cases "match_literal w s") simp_all
  from r(1) have s: "s = w @ r" by (simp add: match_literal_iff)
  from w greeting_words_letters have l: "w \<noteq> []" "is_word_char tables (hd w)" "is_word_char tables (last w)"
    by blast+
  from b have "\<not> is_word_opt tables before"
    using l by (simp add: s head_opt_append word_boundary_def)
  moreover from r(2) have "r = [] \<or> \<not> is_word_char tables (hd r)"
    using l by (simp add: word_boundary_def not_word_head_opt [symmetric])
  ultimately show "\<exists>w suf. s = w @ suf \<and> w \<in> set greeting_words \<and> \<not> is_word_opt tables before \<and>
        (suf = [] \<or> \<not> is_word_char tables (hd suf))"
    using s w by blast
next
  assume "\<exists>w suf. s = w @ suf \<and> w \<in> set greeting_words \<and> \<not> is_word_opt tables before \<and>
        (suf = [] \<or> \<not> is_word_char tables (hd suf))"
  then obtain w suf where h: "s = w @ suf" "w \<in> set greeting_words" "\<not> is_word_opt tables before"
    "suf = [] \<or> \<not> is_word_char tables (hd suf)" by blast
  from h(2) greeting_words_letters have l: "w \<noteq> []" "is_word_char tables (hd w)" "is_word_char tables (last w)"
    by blast+
  have b: "word_boundary tables before (head_opt s)"
    using h(3) l by (simp add: h(1) head_opt_append word_boundary_def)
  have "match_literal w s = Some suf" by (simp add: match_literal_iff h(1))
  moreover have "word_boundary tables (Some (last w)) (head_opt suf)"
    using h(4) l by (simp add: word_boundary_def not_word_head_opt)
  ultimately have "case match_literal w s of None \<Rightarrow> False
            | Some r \<Rightarrow> word_boundary tables (Some (last w)) (head_opt r)" by simp
  with b h(2) show "greeting_match_at tables before s"
    unfolding greeting_match_at_def list_ex_iff by blast
qed

lemma greeting_search_iff:
  "greeting_search tables before s \<longleftrightarrow>
     (\<exists>pre w suf. s = pre @ w @ suf \<and> w \<in> set greeting_words \<and>
        \<not> is_word_opt tables (if pre = [] then before else Some (last pre)) \<and>
        (suf = [] \<or> \<not> is_word_char tables (hd suf)))"
proof (induction s arbitrary: before)
  case Nil
  have "\<not> greeting_match_at tables before []"
    using greeting_words_letters by (auto simp: greeting_match_at_iff)
  moreover have "\<not> (\<exists>pre w suf. [] = pre @ w @ suf \<and> w \<in> set greeting_words \<and>
        \<not> is_word_opt tables (if pre = [] then before else Some (last pre)) \<and>
        (suf = [] \<or> \<not> is_word_char tables (hd suf)))"
    using greeting_words_letters by auto
  ultimately show ?case by simp
next
  case (Cons c cs)
  have "(\<exists>pre w suf. c # cs = pre @ w @ suf \<and> w \<in> set greeting_words \<and>
        \<not> is_word_opt tables (if pre = [] then before else Some (last pre)) \<and>
        (suf = [] \<or> \<not> is_word_char tables (hd suf))) \<longleftrightarrow>
      greeting_match_at tables before (c # cs) \<or>
      (\<exists>pre w suf. cs = pre @ w @ suf \<and> w \<in> set greeting_words \<and>
        \<not> is_word_opt tables (if pre = [] then Some c else Some (last pre)) \<and>
        (suf = [] \<or> \<not> is_word_char tables (hd suf)))"
  proof
    assume "\<exists>pre w suf. c # cs = pre @ w @ suf \<and> w \<in> set greeting_words \<and>
        \<not> is_word_opt tables (if pre = [] then before else Some (last pre)) \<and>
        (suf = [] \<or> \<not> is_word_char tables (hd suf))"
    then obtain pre w suf where h: "c # cs = pre @ w @ suf" "w \<in> set greeting_words"
      "\<not> is_word_opt tables (if pre = [] then before else Some (last pre))"
      "suf = [] \<or> \<not> is_word_char tables (hd suf)" by blast
    show "greeting_match_at tables before (c # cs) \<or>
      (\<exists>pre w suf. cs = pre @ w @ suf \<and> w \<in> set greeting_words \<and>
        \<not> is_word_opt tables (if pre = [] then Some c else Some (last pre)) \<and>
        (suf = [] \<or> \<not> is_word_char tables (hd suf)))"
    proof (cases pre)
      case Nil
      with h have "c # cs = w @ suf \<and> w \<in> set greeting_words \<and> \<not> is_word_opt tables before \<and>
        (suf = [] \<or> \<not> is_word_char tables (hd suf))" by simp
      then have "greeting_match_at tables before (c # cs)" unfolding greeting_match_at_iff by blast
      then show ?thesis by blast
    next
      case (Cons x pre')
      with h have "cs = pre' @ w @ suf \<and> w \<in> set greeting_words \<and>
        \<not> is_word_opt tables (if pre' = [] then Some c else Some (last pre')) \<and>
        (suf = [] \<or> \<not> is_word_char tables (hd suf))" by auto
      then show ?thesis by blast
    qed
  next
    assume "greeting_match_at tables before (c # cs) \<or>
      (\<exists>pre w suf. cs = pre @ w @ suf \<and> w \<in> set greeting_words \<and>
        \<not> is_word_opt tables (if pre = [] then Some c else Some (last pre)) \<and>
        (suf = [] \<or> \<not> is_word_char tables (hd suf)))"
    then show "\<exists>pre w suf. c # cs = pre @ w @ suf \<and> w \<in> set greeting_words \<and>
        \<not> is_word_opt tables (if pre = [] then before else Some (last pre)) \<and>
        (suf = [] \<or> \<not> is_word_char tables (hd suf))"
    proof
      assume "greeting_match_at tables before (c # cs)"
      then obtain w suf where "c # cs = w @ suf" "w \<in> set greeting_words" "\<not> is_word_opt tables before"
        "suf = [] \<or> \<not> is_word_char tables (hd suf)" unfolding greeting_match_at_iff by blast
      then have "c # cs = [] @ w @ suf \<and> w \<in> set greeting_words \<and>
        \<not> is_word_opt tables (if ([]::codepoints) = [] then before else Some (last [])) \<and>
        (suf = [] \<or> \<not> is_word_char tables (hd suf))" by simp
      then show ?thesis by blast
    next
      assume "\<exists>pre w suf. cs = pre @ w @ suf \<and> w \<in> set greeting_words \<and>
        \<not> is_word_opt tables (if pre = [] then Some c else Some (last pre)) \<and>
        (suf = [] \<or> \<not> is_word_char tables (hd suf))"
      then obtain pre w suf where "cs = pre @ w @ suf" "w \<in> set greeting_words"
        "\<not> is_word_opt tables (if pre = [] then Some c else Some (last pre))"
        "suf = [] \<or> \<not> is_word_char tables (hd suf)" by blast
      then have "c # cs = (c # pre) @ w @ suf \<and> w \<in> set greeting_words \<and>
        \<not> is_word_opt tables (if c # pre = [] then before else Some (last (c # pre))) \<and>
        (suf = [] \<or> \<not> is_word_char tables (hd suf))" by auto
      then show ?thesis by blast
    qed
  qed
  with Cons.IH [of "Some c"] show ?case by simp
qed

lemma greeting_search_occurs: "greeting_search tables None (str_lower tables q) \<longleftrightarrow> greeting_occurs tables q"
proof -
  have "\<And>pre. (\<not> is_word_opt tables (if pre = [] then None else Some (last pre))) \<longleftrightarrow>
               (pre = [] \<or> \<not> is_word_char tables (last pre))"
    by simp
  then show ?thesis unfolding greeting_search_iff greeting_occurs_def by simp
qed

subsection \<open>Intent recognizer\<close>

lemma recognize_track:
  "track_order_search q = Some t \<Longrightarrow>
     recognize_intent_and_extract_entities tables q =
       \<lparr>intent = cps ''track_order'', entities = [(cps ''order_id'', upper t)],
        message = cps ''Fetching status for order '' @ upper t @ cps ''...''\<rparr>"
  by (simp add: recognize_intent_and_extract_entities_def)

lemma recognize_greeting:
  "\<not> track_order_occurs q \<Longrightarrow> greeting_occurs tables q \<Longrightarrow>
     recognize_intent_and_extract_entities tables q =
       \<lparr>intent = cps ''greeting'', entities = [],
        message = cps ''Hello! How can I help you today?''\<rparr>"
  using track_order_search_None [of q] greeting_search_occurs [of tables q]
  by (simp add: recognize_intent_and_extract_entities_def)

lemma recognize_unknown:
  "\<not> track_order_occurs q \<Longrightarrow> \<not> greeting_occurs tables q \<Longrightarrow>
     recognize_intent_and_extract_entities tables q =
       \<lparr>intent = cps ''unknown'', entities = [], message = unknown_message\<rparr>"
  using track_order_search_None [of q] greeting_search_occurs [of tables q]
  by (simp add: recognize_intent_and_extract_entities_def)

lemma recognize_track_occurs:
  assumes "track_order_occurs q"
  shows "intent (recognize_intent_and_extract_entities tables q) = cps ''track_order''"
proof -
  from assms obtain t where "track_order_search q = Some t"
    using track_order_search_None [of q] by (cases "track_order_search q") auto
  then show ?thesis by (simp add: recognize_track)
qed

lemma perform_action_other:
  "intent (recognize_intent_and_extract_entities tables q) \<noteq> cps ''track_order'' \<Longrightarrow>
     fst (perform_action tables s q) = recognize_intent_and_extract_entities tables q"
  by (simp add: perform_action_def Let_def)

lemma perform_action_intent:
  "intent (fst (perform_action tables s q)) = intent (recognize_intent_and_extract_entities tables q)"
  by (simp add: perform_action_def Let_def)

lemma intent_names:
  "cps ''greeting'' \<noteq> cps ''track_order''" "cps ''unknown'' \<noteq> cps ''track_order''"
  "cps ''greeting'' \<noteq> cps ''unknown''"
  by (simp_all add: cps_def)

text \<open>
  C4. The rules fire in the order track_order, greeting, unknown, and only the first that
  matches: a query in which the track-order pattern occurs gets intent track_order, whether
  or not a greeting word occurs; a query without it in which one of the greeting words occurs
  as a whole word, in any case, gets intent greeting, no entities and the greeting message;
  every other query gets intent unknown, no entities and the fallback message. The endpoint
  returns the same intent, and for greeting and unknown the same result.
\<close>

theorem intent_priority:
  "(track_order_occurs q \<longrightarrow>
      intent (recognize_intent_and_extract_entities tables q) = cps ''track_order'' \<and>
      intent (fst (perform_action tables s q)) = cps ''track_order'') \<and>
   (\<not> track_order_occurs q \<and> greeting_occurs tables q \<longrightarrow>
      recognize_intent_and_extract_entities tables q =
        \<lparr>intent = cps ''greeting'', entities = [],
         message = cps ''Hello! How can I help you today?''\<rparr> \<and>
      fst (perform_action tables s q) = recognize_intent_and_extract_entities tables q) \<and>
   (\<not> track_order_occurs q \<and> \<not> greeting_occurs tables q \<longrightarrow>
      recognize_intent_and_extract_entities tables q =
        \<lparr>intent = cps ''unknown'', entities = [], message = unknown_message\<rparr> \<and>
      fst (perform_action tables s q) = recognize_intent_and_extract_entities tables q) \<and>
   (intent (recognize_intent_and_extract_entities tables q) = cps ''track_order''
      \<longleftrightarrow> track_order_occurs q) \<and>
   (intent (recognize_intent_and_extract_entities tables q) = cps ''greeting'' \<longleftrightarrow>
      \<not> track_order_occurs q \<and> greeting_occurs tables q) \<and>
   (intent (recognize_intent_and_extract_entities tables q) = cps ''unknown'' \<longleftrightarrow>
      \<not> track_order_occurs q \<and> \<not> greeting_occurs tables q)"
proof -
  consider (t) "track_order_occurs q" | (g) "\<not> track_order_occurs q" "greeting_occurs tables q"
    | (u) "\<not> track_order_occurs q" "\<not> greeting_occurs tables q" by blast
  then show ?thesis
  proof cases
    case t
    then show ?thesis
      using intent_names by (simp add: recognize_track_occurs perform_action_intent)
  next
    case g
    then show ?thesis
      using recognize_greeting [OF g] intent_names by (simp add: perform_action_other)
  next
    case u
    then show ?thesis
      using recognize_unknown [OF u] intent_names by (simp add: perform_action_other)
  qed
qed

lemma track_order_occurs_code: "track_order_occurs q \<longleftrightarrow> track_order_search q \<noteq> None"
  using track_order_search_None [of q] by auto

theorem intent_priority_witness:
  "track_order_occurs (cps ''hello, track my order A1'') \<and>
   greeting_occurs example_tables (cps ''hello, track my order A1'') \<and>
   intent (recognize_intent_and_extract_entities example_tables (cps ''hello, track my order A1''))
     = cps ''track_order'' \<and>
   \<not> track_order_occurs (cps ''Hello there'') \<and>
   greeting_occurs example_tables (cps ''Hello there'') \<and>
   intent (recognize_intent_and_extract_entities example_tables (cps ''Hello there''))
     = cps ''greeting'' \<and>
   \<not> track_order_occurs (cps ''asdkjasd'') \<and>
   \<not> greeting_occurs example_tables (cps ''asdkjasd'') \<and>
   fst (perform_action example_tables init_state (cps ''asdkjasd'')) =
     \<lparr>intent = cps ''unknown'', entities = [], message = unknown_message\<rparr> \<and>
   \<not> track_order_occurs (cps ''hi'' @ [233] @ cps ''roglyphe'') \<and>
   \<not> greeting_occurs example_tables (cps ''hi'' @ [233] @ cps ''roglyphe'') \<and>
   intent (recognize_intent_and_extract_entities example_tables (cps ''hi'' @ [233] @ cps ''roglyphe''))
     = cps ''unknown'' \<and>
   track_order_occurs (cps ''GOOD MORNING, track my order'' @ [160] @ cps ''AB12'') \<and>
   intent (recognize_intent_and_extract_entities example_tables
            (cps ''GOOD MORNING, track my order'' @ [160] @ cps ''AB12'')) = cps ''track_order''"
proof -
  have a: "track_order_occurs (cps ''hello, track my order A1'')"
    unfolding track_order_occurs_code by code_simp
  have a': "greeting_occurs example_tables (cps ''hello, track my order A1'')"
    unfolding greeting_search_occurs [symmetric] by code_simp
  have b: "\<not> track_order_occurs (cps ''Hello there'')"
    unfolding track_order_occurs_code by code_simp
  have b': "greeting_occurs example_tables (cps ''Hello there'')"
    unfolding greeting_search_occurs [symmetric] by code_simp
  have c: "\<not> track_order_occurs (cps ''asdkjasd'')"
    unfolding track_order_occurs_code by code_simp
  have c': "\<not> greeting_occurs example_tables (cps ''asdkjasd'')"
    unfolding greeting_search_occurs [symmetric] by code_simp
  have d: "\<not> track_order_occurs (cps ''hi'' @ [233] @ cps ''roglyphe'')"
    unfolding track_order_occurs_code by code_simp
  have d': "\<not> greeting_occurs example_tables (cps ''hi'' @ [233] @ cps ''roglyphe'')"
    unfolding greeting_search_occurs [symmetric] by code_simp
  have e: "track_order_occurs (cps ''GOOD MORNING, track my order'' @ [160] @ cps ''AB12'')"
    unfolding track_order_occurs_code by code_simp
  from intent_priority [of "cps ''hello, track my order A1''" example_tables init_state] a
  have 1: "intent (recognize_intent_and_extract_entities example_tables (cps ''hello, track my order A1''))
     = cps ''track_order''"
    by blast
  from intent_priority [of "cps ''Hello there''" example_tables init_state] b b'
  have 2: "intent (recognize_intent_and_extract_entities example_tables (cps ''Hello there''))
     = cps ''greeting''"
    by blast
  from intent_priority [of "cps ''asdkjasd''" example_tables init_state] c c'
  have 3: "fst (perform_action example_tables init_state (cps ''asdkjasd'')) =
     \<lparr>intent = cps ''unknown'', entities = [], message = unknown_message\<rparr>"
    by simp
  from intent_priority [of "cps ''hi'' @ [233] @ cps ''roglyphe''" example_tables init_state] d d'
  have 4: "intent (recognize_intent_and_extract_entities example_tables (cps ''hi'' @ [233] @ cps ''roglyphe''))
     = cps ''unknown''"
    by blast
  from intent_priority [of "cps ''GOOD MORNING, track my order'' @ [160] @ cps ''AB12''"
      example_tables init_state] e
  have 5: "intent (recognize_intent_and_extract_entities example_tables
            (cps ''GOOD MORNING, track my order'' @ [160] @ cps ''AB12'')) = cps ''track_order''"
    by blast
  from a a' b b' c c' d d' e 1 2 3 4 5 show ?thesis by blast
qed

subsection \<open>The order id\<close>

lemma ascii_token_atI:
  assumes "s = ph @ ws @ tok @ rest"
    and "\<exists>p\<in>set track_phrases. list_all2 literal_ignorecase p ph"
    and "\<forall>c\<in>set ws. is_space c" and "tok \<noteq> []" and "\<forall>c\<in>set tok. ascii_alnum c"
    and "rest = [] \<or> \<not> ascii_alnum (hd rest)"
  shows "ascii_token_at s tok"
  unfolding ascii_token_at_def using assms by blast

lemma ascii_token_extends:
  assumes "ascii_token_at s t"
  shows "\<exists>t'. order_token_at s (t @ t') \<and>
           (t' = [] \<or> hd t' = 304 \<or> hd t' = 305 \<or> hd t' = 383 \<or> hd t' = 8490)"
proof -
  from assms obtain ph ws rest where h: "s = ph @ ws @ t @ rest"
    "\<exists>p\<in>set track_phrases. list_all2 literal_ignorecase p ph"
    "\<forall>c\<in>set ws. is_space c" "t \<noteq> []" "\<forall>c\<in>set t. ascii_alnum c"
    "rest = [] \<or> \<not> ascii_alnum (hd rest)"
    unfolding ascii_token_at_def by blast
  define t' where "t' = takeWhile order_id_char rest"
  define rest' where "rest' = dropWhile order_id_char rest"
  have r: "rest = t' @ rest'" by (simp add: t'_def rest'_def)
  have s: "s = ph @ ws @ (t @ t') @ rest'" by (simp add: h(1) r)
  have c: "\<forall>c\<in>set (t @ t'). order_id_char c"
    using h(5) by (auto simp: t'_def ascii_alnum_order_id_char dest: set_takeWhileD)
  have e: "rest' = [] \<or> \<not> order_id_char (hd rest')"
    unfolding rest'_def by (metis hd_dropWhile)
  have n: "t @ t' \<noteq> []" using h(4) by simp
  have o: "order_token_at s (t @ t')"
    unfolding order_token_at_def using s h(2,3) n c e by blast
  have f: "t' = [] \<or> hd t' = 304 \<or> hd t' = 305 \<or> hd t' = 383 \<or> hd t' = 8490"
  proof (cases rest)
    case Nil
    then show ?thesis by (simp add: t'_def)
  next
    case (Cons x xs)
    with h(6) have x: "\<not> ascii_alnum x" by simp
    show ?thesis
    proof (cases "order_id_char x")
      case True
      with Cons have "hd t' = x" by (simp add: t'_def)
      with True x show ?thesis by (auto simp: order_id_char_def)
    next
      case False
      with Cons show ?thesis by (simp add: t'_def)
    qed
  qed
  from o f show ?thesis by blast
qed

text \<open>
  C10, as stated, fails in two ways. In "track my order A1, where is my order B2" the phrase
  "where is my order" at position 19 is followed by a space and the run B2, and the order
  id is A1, from the first occurrence. In "track my order AB" followed by U+017F and "12"
  the run of ASCII letters and digits after the phrase is AB, and the order id is ABS12:
  the class of the pattern takes U+017F, and \<open>str.upper\<close> makes it S.
\<close>

theorem order_id_counterexample:
  "ascii_token_at (drop 19 (cps ''track my order A1, where is my order B2'')) (cps ''B2'') \<and>
   recognize_intent_and_extract_entities example_tables
       (cps ''track my order A1, where is my order B2'') =
     \<lparr>intent = cps ''track_order'', entities = [(cps ''order_id'', cps ''A1'')],
      message = cps ''Fetching status for order A1...''\<rparr> \<and>
   cps ''A1'' \<noteq> upper (cps ''B2'') \<and>
   ascii_token_at (cps ''track my order AB'' @ [383] @ cps ''12'') (cps ''AB'') \<and>
   recognize_intent_and_extract_entities example_tables
       (cps ''track my order AB'' @ [383] @ cps ''12'') =
     \<lparr>intent = cps ''track_order'', entities = [(cps ''order_id'', cps ''ABS12'')],
      message = cps ''Fetching status for order ABS12...''\<rparr> \<and>
   cps ''ABS12'' \<noteq> upper (cps ''AB'')"
proof -
  have 1: "ascii_token_at (drop 19 (cps ''track my order A1, where is my order B2'')) (cps ''B2'')"
  proof (rule ascii_token_atI)
    show "drop 19 (cps ''track my order A1, where is my order B2'') =
        cps ''where is my order'' @ cps '' '' @ cps ''B2'' @ []" by code_simp
    show "\<exists>p\<in>set track_phrases. list_all2 literal_ignorecase p (cps ''where is my order'')"
      by code_simp
    show "\<forall>c\<in>set (cps '' ''). is_space c" by code_simp
    show "cps ''B2'' \<noteq> []" by code_simp
    show "\<forall>c\<in>set (cps ''B2''). ascii_alnum c" by code_simp
    show "[] = [] \<or> \<not> ascii_alnum (hd ([]::codepoints))" by simp
  qed
  have 2: "recognize_intent_and_extract_entities example_tables
       (cps ''track my order A1, where is my order B2'') =
     \<lparr>intent = cps ''track_order'', entities = [(cps ''order_id'', cps ''A1'')],
      message = cps ''Fetching status for order A1...''\<rparr>"
    by code_simp
  have 3: "cps ''A1'' \<noteq> upper (cps ''B2'')" by code_simp
  have 4: "ascii_token_at (cps ''track my order AB'' @ [383] @ cps ''12'') (cps ''AB'')"
  proof (rule ascii_token_atI)
    show "cps ''track my order AB'' @ [383] @ cps ''12'' =
        cps ''track my order'' @ cps '' '' @ cps ''AB'' @ ([383] @ cps ''12'')" by code_simp
    show "\<exists>p\<in>set track_phrases. list_all2 literal_ignorecase p (cps ''track my order'')"
      by code_simp
    show "\<forall>c\<in>set (cps '' ''). is_space c" by code_simp
    show "cps ''AB'' \<noteq> []" by code_simp
    show "\<forall>c\<in>set (cps ''AB''). ascii_alnum c" by code_simp
    show "[383] @ cps ''12'' = [] \<or> \<not> ascii_alnum (hd ([383] @ cps ''12''))" by code_simp
  qed
  have 5: "recognize_intent_and_extract_entities example_tables
       (cps ''track my order AB'' @ [383] @ cps ''12'') =
     \<lparr>intent = cps ''track_order'', entities = [(cps ''order_id'', cps ''ABS12'')],
      message = cps ''Fetching status for order ABS12...''\<rparr>"
    by code_simp
  have 6: "cps ''ABS12'' \<noteq> upper (cps ''AB'')" by code_simp
  from 1 2 3 4 5 6 show ?thesis by blast
qed

text \<open>
  C10, amended. If at some position of the query one of the three phrases stands, in any
  case, followed by white space or none and then by at least one character of the class
  \<open>[A-Z0-9]\<close> taken without regard to case (the ASCII letters and digits and the four
  characters that fold onto i, s and k), the intent is track_order and the order id is the
  upper-cased maximal run of such characters at the leftmost such position; it is the run of
  the given position when no such position precedes it. Where the phrase is followed by a
  run of ASCII letters and digits, the run of the class begins with it and is that run
  unless one of the four characters comes next. Any word qualifies, and the run ends at the
  first character outside the class: "where is my order please" gives PLEASE and "track my
  order ORD-123" gives ORD.
\<close>

theorem track_order_token:
  assumes i: "i \<le> length q" and tok: "order_token_at (drop i q) tok"
  shows "intent (recognize_intent_and_extract_entities tables q) = cps ''track_order'' \<and>
         (\<exists>j\<le>i. \<exists>t. order_token_at (drop j q) t \<and>
            (\<forall>k<j. \<forall>t'. \<not> order_token_at (drop k q) t') \<and>
            recognize_intent_and_extract_entities tables q =
              \<lparr>intent = cps ''track_order'', entities = [(cps ''order_id'', upper t)],
               message = cps ''Fetching status for order '' @ upper t @ cps ''...''\<rparr>) \<and>
         ((\<forall>k<i. \<forall>t'. \<not> order_token_at (drop k q) t') \<longrightarrow>
            recognize_intent_and_extract_entities tables q =
              \<lparr>intent = cps ''track_order'', entities = [(cps ''order_id'', upper tok)],
               message = cps ''Fetching status for order '' @ upper tok @ cps ''...''\<rparr>) \<and>
         (\<forall>t. ascii_token_at (drop i q) t \<longrightarrow>
            (\<exists>t'. tok = t @ t' \<and>
               (t' = [] \<or> hd t' = 304 \<or> hd t' = 305 \<or> hd t' = 383 \<or> hd t' = 8490))) \<and>
         recognize_intent_and_extract_entities tables (cps ''where is my order please'') =
           \<lparr>intent = cps ''track_order'', entities = [(cps ''order_id'', cps ''PLEASE'')],
            message = cps ''Fetching status for order PLEASE...''\<rparr> \<and>
         recognize_intent_and_extract_entities tables (cps ''track my order ORD-123'') =
           \<lparr>intent = cps ''track_order'', entities = [(cps ''order_id'', cps ''ORD'')],
            message = cps ''Fetching status for order ORD...''\<rparr>"
proof -
  have occ: "track_order_occurs q" unfolding track_order_occurs_def using i tok by blast
  then obtain t where s: "track_order_search q = Some t"
    using track_order_search_None [of q] by (cases "track_order_search q") auto
  then obtain j where j: "j \<le> length q" "order_token_at (drop j q) t"
    "\<forall>k<j. \<forall>t'. \<not> order_token_at (drop k q) t'"
    unfolding track_order_search_Some by blast
  have ji: "j \<le> i"
  proof (rule ccontr)
    assume "\<not> j \<le> i"
    then have "i < j" by simp
    with j(3) tok show False by blast
  qed
  note r = recognize_track [OF s, of tables]
  have 1: "intent (recognize_intent_and_extract_entities tables q) = cps ''track_order''"
    by (simp add: r)
  have 2: "\<exists>j\<le>i. \<exists>t. order_token_at (drop j q) t \<and>
            (\<forall>k<j. \<forall>t'. \<not> order_token_at (drop k q) t') \<and>
            recognize_intent_and_extract_entities tables q =
              \<lparr>intent = cps ''track_order'', entities = [(cps ''order_id'', upper t)],
               message = cps ''Fetching status for order '' @ upper t @ cps ''...''\<rparr>"
    using ji j(2,3) r by blast
  have 3: "(\<forall>k<i. \<forall>t'. \<not> order_token_at (drop k q) t') \<longrightarrow>
            recognize_intent_and_extract_entities tables q =
              \<lparr>intent = cps ''track_order'', entities = [(cps ''order_id'', upper tok)],
               message = cps ''Fetching status for order '' @ upper tok @ cps ''...''\<rparr>"
  proof
    assume l: "\<forall>k<i. \<forall>t'. \<not> order_token_at (drop k q) t'"
    have "j = i"
    proof (rule ccontr)
      assume "j \<noteq> i"
      with ji have "j < i" by simp
      with l j(2) show False by blast
    qed
    with j(2) tok have "t = tok" by (simp add: order_token_at_unique)
    with r show "recognize_intent_and_extract_entities tables q =
              \<lparr>intent = cps ''track_order'', entities = [(cps ''order_id'', upper tok)],
               message = cps ''Fetching status for order '' @ upper tok @ cps ''...''\<rparr>" by simp
  qed
  have 4: "\<forall>t. ascii_token_at (drop i q) t \<longrightarrow>
            (\<exists>t'. tok = t @ t' \<and>
               (t' = [] \<or> hd t' = 304 \<or> hd t' = 305 \<or> hd t' = 383 \<or> hd t' = 8490))"
  proof (intro allI impI)
    fix t0 assume "ascii_token_at (drop i q) t0"
    from ascii_token_extends [OF this] obtain t' where
      t': "order_token_at (drop i q) (t0 @ t')"
      "t' = [] \<or> hd t' = 304 \<or> hd t' = 305 \<or> hd t' = 383 \<or> hd t' = 8490" by blast
    from t'(1) tok have "tok = t0 @ t'" by (simp add: order_token_at_unique)
    with t'(2) show "\<exists>t'. tok = t0 @ t' \<and>
               (t' = [] \<or> hd t' = 304 \<or> hd t' = 305 \<or> hd t' = 383 \<or> hd t' = 8490)" by blast
  qed
  have 5: "recognize_intent_and_extract_entities tables (cps ''where is my order please'') =
           \<lparr>intent = cps ''track_order'', entities = [(cps ''order_id'', cps ''PLEASE'')],
            message = cps ''Fetching status for order PLEASE...''\<rparr>"
    by code_simp
  have 6: "recognize_intent_and_extract_entities tables (cps ''track my order ORD-123'') =
           \<lparr>intent = cps ''track_order'', entities = [(cps ''order_id'', cps ''ORD'')],
            message = cps ''Fetching status for order ORD...''\<rparr>"
    by code_simp
  from 1 2 3 4 5 6 show ?thesis by blast
qed

lemma example_token:
  "order_token_at (drop 4 (cps ''Hi, Status of MY order'' @ [160] @ cps ''zx'' @ [383] @ cps ''81!''))
     (cps ''zx'' @ [383] @ cps ''81'')"
  unfolding track_order_match_at_iff [symmetric] by code_simp

lemma example_token_before:
  "track_order_match_at (drop 0 (cps ''Hi, Status of MY order'' @ [160] @ cps ''zx'' @ [383] @ cps ''81!'')) = None"
  "track_order_match_at (drop 1 (cps ''Hi, Status of MY order'' @ [160] @ cps ''zx'' @ [383] @ cps ''81!'')) = None"
  "track_order_match_at (drop 2 (cps ''Hi, Status of MY order'' @ [160] @ cps ''zx'' @ [383] @ cps ''81!'')) = None"
  "track_order_match_at (drop 3 (cps ''Hi, Status of MY order'' @ [160] @ cps ''zx'' @ [383] @ cps ''81!'')) = None"
  by code_simp+

lemma example_token_leftmost:
  "\<forall>k<4. \<forall>t'. \<not> order_token_at
      (drop k (cps ''Hi, Status of MY order'' @ [160] @ cps ''zx'' @ [383] @ cps ''81!'')) t'"
proof (intro allI impI)
  fix k :: nat and t'
  assume "k < 4"
  then consider "k = 0" | "k = 1" | "k = 2" | "k = 3" by linarith
  then have "track_order_match_at
      (drop k (cps ''Hi, Status of MY order'' @ [160] @ cps ''zx'' @ [383] @ cps ''81!'')) = None"
    using example_token_before by cases simp_all
  then show "\<not> order_token_at
      (drop k (cps ''Hi, Status of MY order'' @ [160] @ cps ''zx'' @ [383] @ cps ''81!'')) t'"
    unfolding track_order_match_at_None by blast
qed

lemma example_token_ascii:
  "ascii_token_at (drop 4 (cps ''Hi, Status of MY order'' @ [160] @ cps ''zx'' @ [383] @ cps ''81!''))
     (cps ''zx'')"
proof (rule ascii_token_atI)
  show "drop 4 (cps ''Hi, Status of MY order'' @ [160] @ cps ''zx'' @ [383] @ cps ''81!'') =
      cps ''Status of MY order'' @ [160] @ cps ''zx'' @ ([383] @ cps ''81!'')" by code_simp
  show "\<exists>p\<in>set track_phrases. list_all2 literal_ignorecase p (cps ''Status of MY order'')"
    by code_simp
  show "\<forall>c\<in>set [160]. is_space c" by code_simp
  show "cps ''zx'' \<noteq> []" by code_simp
  show "\<forall>c\<in>set (cps ''zx''). ascii_alnum c" by code_simp
  show "[383] @ cps ''81!'' = [] \<or> \<not> ascii_alnum (hd ([383] @ cps ''81!''))" by code_simp
qed

theorem track_order_token_witness:
  "4 \<le> length (cps ''Hi, Status of MY order'' @ [160] @ cps ''zx'' @ [383] @ cps ''81!'') \<and>
   order_token_at (drop 4 (cps ''Hi, Status of MY order'' @ [160] @ cps ''zx'' @ [383] @ cps ''81!''))
     (cps ''zx'' @ [383] @ cps ''81'') \<and>
   \<not> (\<exists>t'. order_token_at (drop 0 (cps ''Hi, Status of MY order'' @ [160] @ cps ''zx'' @ [383] @ cps ''81!'')) t') \<and>
   \<not> (\<exists>t'. order_token_at (drop 1 (cps ''Hi, Status of MY order'' @ [160] @ cps ''zx'' @ [383] @ cps ''81!'')) t') \<and>
   \<not> (\<exists>t'. order_token_at (drop 2 (cps ''Hi, Status of MY order'' @ [160] @ cps ''zx'' @ [383] @ cps ''81!'')) t') \<and>
   \<not> (\<exists>t'. order_token_at (drop 3 (cps ''Hi, Status of MY order'' @ [160] @ cps ''zx'' @ [383] @ cps ''81!'')) t') \<and>
   recognize_intent_and_extract_entities example_tables
       (cps ''Hi, Status of MY order'' @ [160] @ cps ''zx'' @ [383] @ cps ''81!'') =
     \<lparr>intent = cps ''track_order'', entities = [(cps ''order_id'', cps ''ZXS81'')],
      message = cps ''Fetching status for order ZXS81...''\<rparr> \<and>
   ascii_token_at (drop 4 (cps ''Hi, Status of MY order'' @ [160] @ cps ''zx'' @ [383] @ cps ''81!''))
     (cps ''zx'') \<and>
   (\<exists>t'. cps ''zx'' @ [383] @ cps ''81'' = cps ''zx'' @ t' \<and> hd t' = 383)"
proof -
  let ?q = "cps ''Hi, Status of MY order'' @ [160] @ cps ''zx'' @ [383] @ cps ''81!''"
  have l: "4 \<le> length ?q" by (simp add: cps_def)
  have u: "upper (cps ''zx'' @ [383] @ cps ''81'') = cps ''ZXS81''" by code_simp
  have m: "cps ''Fetching status for order '' @ cps ''ZXS81'' @ cps ''...''
      = cps ''Fetching status for order ZXS81...''" by (simp add: cps_def)
  have n: "\<not> (\<exists>t'. order_token_at (drop 0 ?q) t')"
    "\<not> (\<exists>t'. order_token_at (drop 1 ?q) t')"
    "\<not> (\<exists>t'. order_token_at (drop 2 ?q) t')"
    "\<not> (\<exists>t'. order_token_at (drop 3 ?q) t')"
    using example_token_before unfolding track_order_match_at_None by blast+
  note t = track_order_token [OF l example_token, of example_tables]
  from t example_token_leftmost
  have "recognize_intent_and_extract_entities example_tables ?q =
      \<lparr>intent = cps ''track_order'',
       entities = [(cps ''order_id'', upper (cps ''zx'' @ [383] @ cps ''81''))],
       message = cps ''Fetching status for order '' @ upper (cps ''zx'' @ [383] @ cps ''81'')
                   @ cps ''...''\<rparr>"
    by blast
  then have r: "recognize_intent_and_extract_entities example_tables ?q =
     \<lparr>intent = cps ''track_order'', entities = [(cps ''order_id'', cps ''ZXS81'')],
      message = cps ''Fetching status for order ZXS81...''\<rparr>"
    unfolding u m .
  from t example_token_ascii
  obtain t' where t': "cps ''zx'' @ [383] @ cps ''81'' = cps ''zx'' @ t'"
    "t' = [] \<or> hd t' = 304 \<or> hd t' = 305 \<or> hd t' = 383 \<or> hd t' = 8490" by blast
  from t'(1) have "t' = [383] @ cps ''81''" by simp
  then have "hd t' = 383" by simp
  with t'(1) have e: "\<exists>t'. cps ''zx'' @ [383] @ cps ''81'' = cps ''zx'' @ t' \<and> hd t' = 383"
    by blast
  from l example_token n r example_token_ascii e show ?thesis by blast
qed

end
